theory Spec2Isabelle
  imports Main "HOL-Library.Word" "HOL-Library.Char_ord" "HOL-Library.List_Lexorder"
begin

unbundle bit_operations_syntax

section \<open>Errors\<close>

text \<open>
  The exceptions the modelled code raises, as values. A function that can raise returns
  \<open>error + 'a\<close> (\<open>Inl\<close> the exception); a method that can raise after or instead of
  mutating its object returns the outcome paired with the object as it is afterwards.
  \<open>Blocked\<close> stands for an \<open>await\<close> that never returns.
\<close>

datatype error =
    RuntimeError string
  | KeyError string
  | ValueError string
  | TypeError
  | OverflowError
  | NotImplementedError
  | IncompleteReadError
  | UnicodeEncodeError
  | UnicodeDecodeError
  | ResponseError "string list"
  | Blocked

section \<open>Request and response (mikrotik.py)\<close>

text \<open>
  \<open>Request.__init__\<close> draws the tag from \<open>uuid.uuid4().hex\<close>; the model takes the
  tag as an argument.
\<close>

record request =
  tag :: string
  words :: "string list"

record response_sentence =
  api_attributes :: "string \<rightharpoonup> string"
  attributes :: "string \<rightharpoonup> string"
  type :: string

definition ResponseSentence :: "string \<Rightarrow> response_sentence" where
  "ResponseSentence ty = \<lparr>api_attributes = Map.empty, attributes = Map.empty, type = ty\<rparr>"

datatype response_status = InProgress | Error | Success

text \<open>\<open>completion_event\<close> is an \<open>asyncio.Event\<close>: the field holds whether it is set.\<close>

record response =
  completion_event :: bool
  request :: request
  sentences :: "response_sentence list"
  status :: response_status

definition Response :: "request \<Rightarrow> response" where
  "Response req =
     \<lparr>completion_event = False, request = req, sentences = [], status = InProgress\<rparr>"

definition is_complete :: "response \<Rightarrow> bool" where
  "is_complete r = completion_event r"

definition update_with_sentence ::
  "response_sentence \<Rightarrow> response \<Rightarrow> (error + unit) \<times> response" where
  "update_with_sentence sentence r =
     (if is_complete r then (Inl (RuntimeError ''response is complete''), r)
      else
        let r1 = r\<lparr>sentences := sentences r @ [sentence]\<rparr> in
        if type sentence = ''!trap'' then (Inr (), r1\<lparr>status := Error\<rparr>)
        else if type sentence = ''!done'' then
          (let r2 = (if status r1 = InProgress then r1\<lparr>status := Success\<rparr> else r1)
           in (Inr (), r2\<lparr>completion_event := True\<rparr>))
        else (Inr (), r1))"

definition cancel :: "response \<Rightarrow> (error + unit) \<times> response" where
  "cancel r =
     (if is_complete r then (Inl (RuntimeError ''rresponse is complete''), r)
      else
        let sentence = ResponseSentence ''!trap'';
            sentence = sentence\<lparr>attributes :=
              (attributes sentence)(''message'' \<mapsto> ''response cancelled'')\<rparr>
        in update_with_sentence sentence r)"

text \<open>
  A sequence of sentences delivered to a response one after the other. A rejected call
  raises before it touches the object, so the next call sees the object as it was.
\<close>

fun deliver :: "response_sentence list \<Rightarrow> response \<Rightarrow> response" where
  "deliver [] r = r"
| "deliver (s # ss) r = deliver ss (snd (update_with_sentence s r))"

section \<open>Outgoing words (mikrotik.py)\<close>

text \<open>
  Python's \<open>str(n)\<close> for an integer: the decimal digits, with a leading minus sign
  for a negative number.
\<close>

definition digit_char :: "nat \<Rightarrow> char" where
  "digit_char k = ''0123456789'' ! k"

fun str_nat :: "nat \<Rightarrow> string" where
  "str_nat n = (if n < 10 then [digit_char n] else str_nat (n div 10) @ [digit_char (n mod 10)])"

declare str_nat.simps [simp del]

definition str_int :: "int \<Rightarrow> string" where
  "str_int i = (if i < 0 then CHR ''-'' # str_nat (nat (- i)) else str_nat (nat i))"

definition startswith :: "string \<Rightarrow> string \<Rightarrow> bool" where
  "startswith s p = (take (length p) s = p)"

text \<open>
  The values the attribute dictionaries hold: \<open>None\<close>, booleans, integers and strings.
  A dictionary is an association list in insertion order, the order \<open>items()\<close> yields.
\<close>

datatype py_value = VNone | VBool bool | VInt int | VStr string

fun to_word_value :: "py_value \<Rightarrow> string" where
  "to_word_value VNone = []"
| "to_word_value (VBool b) = (if b then ''true'' else ''false'')"
| "to_word_value (VInt i) = str_int i"
| "to_word_value (VStr s) = s"

fun to_attribute_words :: "(string \<times> py_value) list \<Rightarrow> string list" where
  "to_attribute_words [] = []"
| "to_attribute_words ((key, v) # rest) =
     (''='' @ key @ ''='' @ to_word_value v) # to_attribute_words rest"

text \<open>
  The loop of \<open>to_api_attribute_words\<close> raises at the first key without the dot; the
  words built so far are lost with the exception.
\<close>

fun to_api_attribute_words :: "(string \<times> py_value) list \<Rightarrow> error + string list" where
  "to_api_attribute_words [] = Inr []"
| "to_api_attribute_words ((key, v) # rest) =
     (if \<not> startswith key ''.'' then Inl (ValueError (''key missing . prefix: '' @ key))
      else case to_api_attribute_words rest of
             Inl e \<Rightarrow> Inl e
           | Inr ws \<Rightarrow> Inr ((key @ ''='' @ to_word_value v) # ws))"

section \<open>Device records and endpoints (provider.py)\<close>

text \<open>
  provider.py imports \<open>IpDnsRecord\<close> and \<open>IpDnsRecordType\<close> from the pykrotik package,
  which is not among the sources. What provider.py reads of a listed record is its
  \<open>type\<close>, \<open>name\<close>, \<open>id\<close> and, by type, \<open>address\<close>, \<open>cname\<close> or \<open>text\<close>; these
  are modelled by the tagged variant of the specification's data model: common fields
  and, per type, the fields of that type. The field \<open>id\<close> is named \<open>record_id\<close> here.
  What the call \<open>IpDnsRecord(...)\<close> does with its keyword arguments is not taken from
  anywhere: it is a parameter of \<open>to_routeros_record\<close> below.
\<close>

datatype ip_dns_variant =
    IpDnsARecord string
  | IpDnsAaaaRecord string
  | IpDnsCnameRecord string
  | IpDnsFwdRecord string
  | IpDnsMxRecord int string
  | IpDnsNsRecord string
  | IpDnsNxdomainRecord
  | IpDnsSrvRecord int int string int
  | IpDnsTxtRecord string

record ip_dns_record =
  disabled :: bool
  record_id :: "string option"
  match_subdomain :: bool
  name :: string
  ttl :: string
  variant :: ip_dns_variant

text \<open>
  The keyword arguments \<open>to_routeros_record\<close> passes to \<open>IpDnsRecord(...)\<close>: the common
  ones and, as one variant, \<open>type=\<close> with the field of that type (\<open>address=target\<close>,
  \<open>cname=target\<close> or \<open>text=target\<close>).
\<close>

record ip_dns_kwargs =
  kw_disabled :: bool
  kw_dynamic :: bool
  kw_match_subdomain :: bool
  kw_name :: string
  kw_ttl :: string
  kw_variant :: ip_dns_variant

datatype RecordType = A | AAAA | CNAME | TXT | SRV | NS | PTR | MX | NAPTR

record endpoint =
  dns_name :: string
  targets :: "string list"
  record_type :: RecordType
  set_identifier :: "string option"
  record_ttl :: "int option"
  labels :: "(string \<times> string) list option"
  provider_specific :: "(string \<times> string) list option"

record changes =
  create :: "endpoint list option"
  update_old :: "endpoint list option"
  update_new :: "endpoint list option"
  delete :: "endpoint list option"

subsection \<open>RecordMap\<close>

text \<open>
  \<open>RecordMap.__init__\<close>: \<open>data.setdefault(record.name, []).append(record)\<close> for each
  record in turn.
\<close>

fun RecordMap_add ::
  "ip_dns_record list \<Rightarrow> (string \<rightharpoonup> ip_dns_record list) \<Rightarrow> (string \<rightharpoonup> ip_dns_record list)"
  where
  "RecordMap_add [] data = data"
| "RecordMap_add (record # records) data =
     RecordMap_add records
       (data(name record \<mapsto> (case data (name record) of None \<Rightarrow> [] | Some l \<Rightarrow> l) @ [record]))"

definition RecordMap :: "ip_dns_record list \<Rightarrow> (string \<rightharpoonup> ip_dns_record list)" where
  "RecordMap records = RecordMap_add records Map.empty"

text \<open>The loop of \<open>RecordMap.find\<close> over the records listed under one name.\<close>

fun find_item :: "ip_dns_record list \<Rightarrow> string \<Rightarrow> ip_dns_record option" where
  "find_item [] target = None"
| "find_item (item # items) target =
     (case variant item of
        IpDnsARecord address \<Rightarrow> if address = target then Some item else find_item items target
      | IpDnsCnameRecord cname \<Rightarrow> if cname = target then Some item else find_item items target
      | IpDnsTxtRecord text \<Rightarrow> if text = target then Some item else find_item items target
      | _ \<Rightarrow> find_item items target)"

definition RecordMap_find ::
  "(string \<rightharpoonup> ip_dns_record list) \<Rightarrow> endpoint \<Rightarrow> string \<Rightarrow> ip_dns_record option" where
  "RecordMap_find data endpoint target =
     find_item (case data (dns_name endpoint) of None \<Rightarrow> [] | Some l \<Rightarrow> l) target"

subsection \<open>TTL conversion\<close>

text \<open>
  \<open>datetime.timedelta(seconds=n)\<close> for an integer \<open>n\<close> normalises to days and seconds
  of the day (floor division), and raises OverflowError when the days leave the range
  from -999999999 to 999999999. The result is the pair \<open>(td.days, td.seconds)\<close>.
\<close>

definition timedelta :: "int \<Rightarrow> error + int \<times> int" where
  "timedelta secs =
     (let days = secs div 86400; seconds = secs mod 86400
      in if \<bar>days\<bar> > 999999999 then Inl OverflowError else Inr (days, seconds))"

text \<open>
  \<open>int(a / b)\<close>: true division, then truncation towards zero. For the magnitudes a
  timedelta holds the float quotient is nowhere near the next integer, so the result
  is the truncated exact quotient. The divisors in \<open>to_routeros_ttl\<close> are the
  constants 7, 3600 and 60, never zero.
\<close>

definition int_truediv :: "int \<Rightarrow> int \<Rightarrow> int" where
  "int_truediv a b = (if (a < 0) = (b < 0) then \<bar>a\<bar> div \<bar>b\<bar> else - (\<bar>a\<bar> div \<bar>b\<bar>))"

definition to_routeros_ttl :: "int \<Rightarrow> error + string" where
  "to_routeros_ttl external_dns_ttl =
     (case timedelta external_dns_ttl of
        Inl e \<Rightarrow> Inl e
      | Inr (days, seconds) \<Rightarrow>
          let w = int_truediv days 7;
              d = days mod 7;
              h = int_truediv seconds (60 * 60);
              m = int_truediv (seconds mod (60 * 60)) 60;
              s = seconds mod 60
          in Inr (str_int w @ ''w'' @ str_int d @ ''d'' @ str_int h @ ''h'' @
                  str_int m @ ''m'' @ str_int s @ ''s''))"

text \<open>
  The pattern of \<open>to_external_dns_ttl\<close> is five optional groups \<open>([0-9]+X)?\<close> for
  \<open>X\<close> = w, d, h, m, s in that order, matched at the start of the string. A group
  matches when the longest run of digits at the position is not empty and the
  character after it is \<open>X\<close>; otherwise the group is absent and the position stays.
  Nothing in the pattern is mandatory, so \<open>regex.match\<close> always returns a match.
\<close>

definition is_digit :: "char \<Rightarrow> bool" where
  "is_digit c = (c \<in> set ''0123456789'')"

definition match_group :: "char \<Rightarrow> string \<Rightarrow> string option \<times> string" where
  "match_group key s =
     (let ds = takeWhile is_digit s; rest = dropWhile is_digit s
      in case rest of
           [] \<Rightarrow> (None, s)
         | c # rest' \<Rightarrow> if ds \<noteq> [] \<and> c = key then (Some (ds @ [key]), rest') else (None, s))"

fun match_groups :: "char list \<Rightarrow> string \<Rightarrow> (char \<times> string option) list" where
  "match_groups [] s = []"
| "match_groups (key # keys) s =
     (case match_group key s of (g, rest) \<Rightarrow> (key, g) # match_groups keys rest)"

definition regex_match :: "string \<Rightarrow> (char \<times> string option) list option" where
  "regex_match mikrotik_ttl = Some (match_groups ''wdhms'' mikrotik_ttl)"

text \<open>
  \<open>int(text)\<close> on the digit strings the groups hold (the interpreter's optional limit
  on the number of digits is left out).
\<close>

definition digit_val :: "char \<Rightarrow> nat" where
  "digit_val c = of_char c - 48"

definition int_of_str :: "string \<Rightarrow> error + int" where
  "int_of_str text =
     (if text \<noteq> [] \<and> (\<forall>c\<in>set text. is_digit c)
      then Inr (int (foldl (\<lambda>acc c. 10 * acc + digit_val c) 0 text))
      else Inl (ValueError text))"

text \<open>
  The loop over the keys: \<open>int((match.group(key) or f"0{key}").replace(key, ""))\<close>.
\<close>

fun ttl_parts :: "(char \<times> string option) list \<Rightarrow> error + (char \<times> int) list" where
  "ttl_parts [] = Inr []"
| "ttl_parts ((key, g) # groups) =
     (let str_val = (case g of None \<Rightarrow> [CHR ''0'', key] | Some text \<Rightarrow> text)
      in case int_of_str (filter (\<lambda>c. c \<noteq> key) str_val) of
           Inl e \<Rightarrow> Inl e
         | Inr val \<Rightarrow>
             (case ttl_parts groups of
                Inl e \<Rightarrow> Inl e
              | Inr parts \<Rightarrow> Inr ((key, val) # parts)))"

definition part :: "(char \<times> int) list \<Rightarrow> char \<Rightarrow> int" where
  "part parts key = (case map_of parts key of Some v \<Rightarrow> v | None \<Rightarrow> 0)"

definition to_external_dns_ttl :: "string \<Rightarrow> error + int" where
  "to_external_dns_ttl mikrotik_ttl =
     (case regex_match mikrotik_ttl of
        None \<Rightarrow> Inl (ValueError mikrotik_ttl)
      | Some groups \<Rightarrow>
          (case ttl_parts groups of
             Inl e \<Rightarrow> Inl e
           | Inr parts \<Rightarrow>
               Inr (part parts CHR ''s''
                    + part parts CHR ''m'' * 60
                    + part parts CHR ''h'' * 60 * 60
                    + part parts CHR ''d'' * 60 * 60 * 24
                    + part parts CHR ''w'' * 60 * 60 * 24 * 7)))"

subsection \<open>Endpoint to record\<close>

text \<open>
  \<open>to_routeros_record\<close> builds the common keyword arguments first (the TTL conversion
  can raise there) and then, by the endpoint's record type, calls \<open>IpDnsRecord(...)\<close>
  or raises NotImplementedError. The class behind the name \<open>IpDnsRecord\<close> belongs to
  the pykrotik package: the call is the parameter \<open>IpDnsRecord\<close>, which returns the
  record it builds or the exception it raises.
\<close>

definition to_routeros_record ::
  "(ip_dns_kwargs \<Rightarrow> error + ip_dns_record) \<Rightarrow> endpoint \<Rightarrow> string \<Rightarrow> error + ip_dns_record"
  where
  "to_routeros_record IpDnsRecord endpoint target =
     (case to_routeros_ttl
             (case record_ttl endpoint of
                None \<Rightarrow> 60 * 60 * 24
              | Some t \<Rightarrow> if t = 0 then 60 * 60 * 24 else t) of
        Inl e \<Rightarrow> Inl e
      | Inr ttl_text \<Rightarrow>
          let kwargs = \<lambda>v. \<lparr>kw_disabled = False, kw_dynamic = False,
                             kw_match_subdomain = startswith target ''*.'',
                             kw_name = dns_name endpoint, kw_ttl = ttl_text, kw_variant = v\<rparr>
          in if record_type endpoint = A then IpDnsRecord (kwargs (IpDnsARecord target))
             else if record_type endpoint = CNAME then IpDnsRecord (kwargs (IpDnsCnameRecord target))
             else if record_type endpoint = TXT then IpDnsRecord (kwargs (IpDnsTxtRecord target))
             else Inl NotImplementedError)"

text \<open>
  Modelled from the spec: the constructor of pykrotik's \<open>IpDnsRecord\<close>, which is not
  among the sources. The specification's endpoint-to-record translation outputs a device
  record with exactly the fields given (\<open>disabled\<close>, \<open>match_subdomain\<close>, \<open>name\<close>,
  \<open>ttl\<close> and the field of the type), without an id; \<open>dynamic\<close> is accepted and
  ignored.
\<close>

definition IpDnsRecord_spec :: "ip_dns_kwargs \<Rightarrow> error + ip_dns_record" where
  "IpDnsRecord_spec kw =
     Inr \<lparr>disabled = kw_disabled kw, record_id = None,
          match_subdomain = kw_match_subdomain kw, name = kw_name kw, ttl = kw_ttl kw,
          variant = kw_variant kw\<rparr>"

section \<open>Provider (provider.py)\<close>

text \<open>
  The client is the device behind the provider: each call takes the device as it is and
  returns its outcome with the device afterwards. Nothing is assumed about what a call
  answers or how it changes the device; a call answers \<open>Blocked\<close> when its \<open>await\<close>
  never returns.
\<close>

record 'd client =
  list_ip_dns_records :: "'d \<Rightarrow> (error + ip_dns_record list) \<times> 'd"
  add_ip_dns_record :: "ip_dns_record \<Rightarrow> 'd \<Rightarrow> (error + unit) \<times> 'd"
  delete_ip_dns_record :: "ip_dns_record \<Rightarrow> 'd \<Rightarrow> (error + unit) \<times> 'd"

text \<open>
  \<open>log_action\<close> is a context manager around one per-target body: an exception inside
  the body is logged and swallowed, and the loop goes on with the next target. A body
  that never returns is not an exception: nothing after it runs, and \<open>apply_changes\<close>
  does not return either.
\<close>

definition log_action :: "(error + unit) \<times> 'd \<Rightarrow> (error + unit) \<times> 'd" where
  "log_action body =
     (case body of
        (Inl e, d) \<Rightarrow> if e = Blocked then (Inl Blocked, d) else (Inr (), d)
      | (Inr u, d) \<Rightarrow> (Inr (), d))"

definition create_body ::
  "(ip_dns_kwargs \<Rightarrow> error + ip_dns_record) \<Rightarrow> 'd client \<Rightarrow> endpoint \<Rightarrow> string \<Rightarrow> 'd
     \<Rightarrow> (error + unit) \<times> 'd" where
  "create_body IpDnsRecord c endpoint target d =
     (case to_routeros_record IpDnsRecord endpoint target of
        Inl e \<Rightarrow> (Inl e, d)
      | Inr record \<Rightarrow> add_ip_dns_record c record d)"

definition delete_body ::
  "'d client \<Rightarrow> (string \<rightharpoonup> ip_dns_record list) \<Rightarrow> endpoint \<Rightarrow> string \<Rightarrow> 'd
     \<Rightarrow> (error + unit) \<times> 'd" where
  "delete_body c record_map endpoint target d =
     (case RecordMap_find record_map endpoint target of
        None \<Rightarrow> (Inr (), d)
      | Some record \<Rightarrow> delete_ip_dns_record c record d)"

text \<open>
  The loops. Each returns \<open>Inr ()\<close> with the device after its last target, or
  \<open>Inl Blocked\<close> with the device at the call that did not return.
\<close>

fun create_targets ::
  "(ip_dns_kwargs \<Rightarrow> error + ip_dns_record) \<Rightarrow> 'd client \<Rightarrow> endpoint \<Rightarrow> string list \<Rightarrow> 'd
     \<Rightarrow> (error + unit) \<times> 'd" where
  "create_targets IpDnsRecord c endpoint [] d = (Inr (), d)"
| "create_targets IpDnsRecord c endpoint (target # rest) d =
     (case log_action (create_body IpDnsRecord c endpoint target d) of
        (Inl e, d1) \<Rightarrow> (Inl e, d1)
      | (Inr u, d1) \<Rightarrow> create_targets IpDnsRecord c endpoint rest d1)"

fun delete_targets ::
  "'d client \<Rightarrow> (string \<rightharpoonup> ip_dns_record list) \<Rightarrow> endpoint \<Rightarrow> string list \<Rightarrow> 'd
     \<Rightarrow> (error + unit) \<times> 'd" where
  "delete_targets c record_map endpoint [] d = (Inr (), d)"
| "delete_targets c record_map endpoint (target # rest) d =
     (case log_action (delete_body c record_map endpoint target d) of
        (Inl e, d1) \<Rightarrow> (Inl e, d1)
      | (Inr u, d1) \<Rightarrow> delete_targets c record_map endpoint rest d1)"

fun handle_creates ::
  "(ip_dns_kwargs \<Rightarrow> error + ip_dns_record) \<Rightarrow> 'd client \<Rightarrow> endpoint list \<Rightarrow> 'd
     \<Rightarrow> (error + unit) \<times> 'd" where
  "handle_creates IpDnsRecord c [] d = (Inr (), d)"
| "handle_creates IpDnsRecord c (endpoint # rest) d =
     (case create_targets IpDnsRecord c endpoint (targets endpoint) d of
        (Inl e, d1) \<Rightarrow> (Inl e, d1)
      | (Inr u, d1) \<Rightarrow> handle_creates IpDnsRecord c rest d1)"

fun handle_deletes ::
  "'d client \<Rightarrow> (string \<rightharpoonup> ip_dns_record list) \<Rightarrow> endpoint list \<Rightarrow> 'd
     \<Rightarrow> (error + unit) \<times> 'd" where
  "handle_deletes c record_map [] d = (Inr (), d)"
| "handle_deletes c record_map (endpoint # rest) d =
     (case delete_targets c record_map endpoint (targets endpoint) d of
        (Inl e, d1) \<Rightarrow> (Inl e, d1)
      | (Inr u, d1) \<Rightarrow> handle_deletes c record_map rest d1)"

text \<open>
  The update loop builds two Python sets for each pair and walks their differences. The
  order in which a \<open>for\<close> loop visits a set is not fixed by the set's elements: it
  depends on how the set was built, so two loops over equal sets may differ. Every loop
  over a set has its own order: \<open>order i Removed\<close> for the loop over
  \<open>old_targets - new_targets\<close> of the pair at index \<open>i\<close>, \<open>order i Added\<close> for the
  loop over \<open>new_targets - old_targets\<close> of that pair. It maps the set to the list of
  its elements as visited.
\<close>

datatype set_loop = Removed | Added

fun handle_updates ::
  "(ip_dns_kwargs \<Rightarrow> error + ip_dns_record) \<Rightarrow> 'd client
     \<Rightarrow> (nat \<Rightarrow> set_loop \<Rightarrow> string set \<Rightarrow> string list) \<Rightarrow> (string \<rightharpoonup> ip_dns_record list)
     \<Rightarrow> nat \<Rightarrow> (endpoint \<times> endpoint) list \<Rightarrow> 'd \<Rightarrow> (error + unit) \<times> 'd" where
  "handle_updates IpDnsRecord c order record_map i [] d = (Inr (), d)"
| "handle_updates IpDnsRecord c order record_map i ((old_endpoint, endpoint) # rest) d =
     (let old_targets = set (targets old_endpoint);
          new_targets = set (targets endpoint)
      in case delete_targets c record_map endpoint
                (order i Removed (old_targets - new_targets)) d of
           (Inl e, d1) \<Rightarrow> (Inl e, d1)
         | (Inr u, d1) \<Rightarrow>
             (case create_targets IpDnsRecord c endpoint
                     (order i Added (new_targets - old_targets)) d1 of
                (Inl e, d2) \<Rightarrow> (Inl e, d2)
              | (Inr u, d2) \<Rightarrow>
                  handle_updates IpDnsRecord c order record_map (Suc i) rest d2))"

definition or_empty :: "'a list option \<Rightarrow> 'a list" where
  "or_empty l = (case l of None \<Rightarrow> [] | Some xs \<Rightarrow> xs)"

definition apply_changes ::
  "(ip_dns_kwargs \<Rightarrow> error + ip_dns_record) \<Rightarrow> 'd client
     \<Rightarrow> (nat \<Rightarrow> set_loop \<Rightarrow> string set \<Rightarrow> string list) \<Rightarrow> changes \<Rightarrow> 'd
     \<Rightarrow> (error + unit) \<times> 'd" where
  "apply_changes IpDnsRecord c order chg d =
     (let creates = or_empty (create chg);
          update_olds = or_empty (update_old chg);
          update_news = or_empty (update_new chg);
          updates = zip update_olds update_news;
          deletes = or_empty (delete chg)
      in case list_ip_dns_records c d of
           (Inl e, d0) \<Rightarrow> (Inl e, d0)
         | (Inr records, d0) \<Rightarrow>
             let record_map = RecordMap records
             in (case handle_creates IpDnsRecord c creates d0 of
                   (Inl e, d1) \<Rightarrow> (Inl e, d1)
                 | (Inr u, d1) \<Rightarrow>
                     (case handle_deletes c record_map deletes d1 of
                        (Inl e, d2) \<Rightarrow> (Inl e, d2)
                      | (Inr u, d2) \<Rightarrow>
                          handle_updates IpDnsRecord c order record_map 0 updates d2)))"

text \<open>
  A client whose adds and deletes always come back, with a result or an exception, and
  a constructor that does.
\<close>

definition responsive :: "'d client \<Rightarrow> bool" where
  "responsive c =
     (\<forall>record d. fst (add_ip_dns_record c record d) \<noteq> Inl Blocked
                \<and> fst (delete_ip_dns_record c record d) \<noteq> Inl Blocked)"

definition returning :: "(ip_dns_kwargs \<Rightarrow> error + ip_dns_record) \<Rightarrow> bool" where
  "returning IpDnsRecord = (\<forall>kw. IpDnsRecord kw \<noteq> Inl Blocked)"

subsection \<open>Observing the device calls\<close>

text \<open>
  To speak about the calls a run issues, a client is wrapped so that every call is
  appended to a log kept beside the device; the call itself goes to the wrapped client
  unchanged.
\<close>

datatype device_call = ListCall | AddCall ip_dns_record | DeleteCall ip_dns_record

definition traced :: "'d client \<Rightarrow> ('d \<times> device_call list) client" where
  "traced c =
     \<lparr>list_ip_dns_records =
        (\<lambda>(d, log). case list_ip_dns_records c d of (r, d') \<Rightarrow> (r, (d', log @ [ListCall]))),
      add_ip_dns_record =
        (\<lambda>record (d, log).
           case add_ip_dns_record c record d of (r, d') \<Rightarrow> (r, (d', log @ [AddCall record]))),
      delete_ip_dns_record =
        (\<lambda>record (d, log).
           case delete_ip_dns_record c record d of
             (r, d') \<Rightarrow> (r, (d', log @ [DeleteCall record])))\<rparr>"

definition calls :: "'a \<times> 'd \<times> device_call list \<Rightarrow> device_call list" where
  "calls run = snd (snd run)"

text \<open>
  A device that lists the given records and answers every add and delete with the given
  outcome (\<open>Inr ()\<close> for success, an exception otherwise).
\<close>

definition fixed_client :: "ip_dns_record list \<Rightarrow> error + unit \<Rightarrow> unit client" where
  "fixed_client records outcome =
     \<lparr>list_ip_dns_records = (\<lambda>d. (Inr records, d)),
      add_ip_dns_record = (\<lambda>record d. (outcome, d)),
      delete_ip_dns_record = (\<lambda>record d. (outcome, d))\<rparr>"

text \<open>An order of visit for the examples: every loop visits its set in sorted order.\<close>

definition sorted_order :: "nat \<Rightarrow> set_loop \<Rightarrow> string set \<Rightarrow> string list" where
  "sorted_order i l S = sorted_list_of_set S"


subsection \<open>Example data\<close>

text \<open>
  Two listed A records under one name, an A endpoint of that name with given targets,
  and a batch with a create of an unsupported and of a supported endpoint, a delete of
  an unlisted and of a listed target, and an update.
\<close>

definition example_records :: "ip_dns_record list" where
  "example_records =
     [\<lparr>disabled = False, record_id = Some ''*1'', match_subdomain = False,
       name = ''svc.lan'', ttl = ''0w1d0h0m0s'', variant = IpDnsARecord ''10.0.0.5''\<rparr>,
      \<lparr>disabled = False, record_id = Some ''*2'', match_subdomain = False,
       name = ''svc.lan'', ttl = ''0w1d0h0m0s'', variant = IpDnsARecord ''10.0.0.6''\<rparr>]"

definition example_endpoint :: "string list \<Rightarrow> endpoint" where
  "example_endpoint ts =
     \<lparr>dns_name = ''svc.lan'', targets = ts, record_type = A, set_identifier = None,
      record_ttl = None, labels = None, provider_specific = None\<rparr>"

definition example_batch :: changes where
  "example_batch =
     \<lparr>create = Some
        [\<lparr>dns_name = ''host.lan'', targets = [''10.0.0.9''], record_type = PTR,
          set_identifier = None, record_ttl = None, labels = None, provider_specific = None\<rparr>,
         \<lparr>dns_name = ''new.lan'', targets = [''10.0.0.1'', ''10.0.0.2''], record_type = A,
          set_identifier = None, record_ttl = None, labels = None, provider_specific = None\<rparr>],
      update_old = Some [example_endpoint [''10.0.0.6'']],
      update_new = Some [example_endpoint [''10.0.0.7'']],
      delete = Some
        [\<lparr>dns_name = ''gone.lan'', targets = [''10.0.0.8''], record_type = A,
          set_identifier = None, record_ttl = None, labels = None, provider_specific = None\<rparr>,
         example_endpoint [''10.0.0.5'']]\<rparr>"

subsection \<open>The calls a batch asks for\<close>

text \<open>
  The calls of a batch, written down from the description of \<open>apply_changes\<close>: an add
  for each target that translates to a record, a delete for each target found in the
  record map; the listing, then the creates, then the deletes, then the update pairs
  one after the other, each with its removals before its additions.
\<close>

definition adds_for ::
  "(ip_dns_kwargs \<Rightarrow> error + ip_dns_record) \<Rightarrow> endpoint \<Rightarrow> string list \<Rightarrow> device_call list"
  where
  "adds_for IpDnsRecord endpoint ts =
     concat (map (\<lambda>t. case to_routeros_record IpDnsRecord endpoint t of
                         Inl e \<Rightarrow> []
                       | Inr record \<Rightarrow> [AddCall record]) ts)"

definition deletes_for ::
  "(string \<rightharpoonup> ip_dns_record list) \<Rightarrow> endpoint \<Rightarrow> string list \<Rightarrow> device_call list" where
  "deletes_for record_map endpoint ts =
     concat (map (\<lambda>t. case RecordMap_find record_map endpoint t of
                         None \<Rightarrow> []
                       | Some record \<Rightarrow> [DeleteCall record]) ts)"

definition update_calls ::
  "(ip_dns_kwargs \<Rightarrow> error + ip_dns_record) \<Rightarrow> (nat \<Rightarrow> set_loop \<Rightarrow> string set \<Rightarrow> string list)
     \<Rightarrow> (string \<rightharpoonup> ip_dns_record list) \<Rightarrow> nat \<times> endpoint \<times> endpoint \<Rightarrow> device_call list"
  where
  "update_calls IpDnsRecord order record_map u =
     (case u of (i, old, new) \<Rightarrow>
        deletes_for record_map new (order i Removed (set (targets old) - set (targets new)))
        @ adds_for IpDnsRecord new (order i Added (set (targets new) - set (targets old))))"

definition expected_calls ::
  "(ip_dns_kwargs \<Rightarrow> error + ip_dns_record) \<Rightarrow> (nat \<Rightarrow> set_loop \<Rightarrow> string set \<Rightarrow> string list)
     \<Rightarrow> ip_dns_record list \<Rightarrow> changes \<Rightarrow> device_call list" where
  "expected_calls IpDnsRecord order records chg =
     [ListCall]
     @ concat (map (\<lambda>e. adds_for IpDnsRecord e (targets e)) (or_empty (create chg)))
     @ concat (map (\<lambda>e. deletes_for (RecordMap records) e (targets e)) (or_empty (delete chg)))
     @ concat (map (update_calls IpDnsRecord order (RecordMap records))
                 (enumerate 0 (zip (or_empty (update_old chg)) (or_empty (update_new chg)))))"

section \<open>Wire codec (mikrotik.py)\<close>

text \<open>
  A Python \<open>str\<close> is a list of code points, \<open>bytes\<close> a list of numbers below 256.
  \<open>str.encode()\<close> and \<open>bytes.decode()\<close> are strict UTF-8: \<open>len\<close> of a string
  counts code points, \<open>len\<close> of its encoding counts bytes.
\<close>

type_synonym pystr = "nat list"
type_synonym bytes = "nat list"

definition encode_code_point :: "nat \<Rightarrow> error + bytes" where
  "encode_code_point cp =
     (if cp < 0x80 then Inr [cp]
      else if cp < 0x800 then Inr [0xC0 + cp div 64, 0x80 + cp mod 64]
      else if cp < 0x10000 then
        (if 0xD800 \<le> cp \<and> cp \<le> 0xDFFF then Inl UnicodeEncodeError
         else Inr [0xE0 + cp div 4096, 0x80 + cp div 64 mod 64, 0x80 + cp mod 64])
      else if cp < 0x110000 then
        Inr [0xF0 + cp div 262144, 0x80 + cp div 4096 mod 64, 0x80 + cp div 64 mod 64,
             0x80 + cp mod 64]
      else Inl UnicodeEncodeError)"

fun encode :: "pystr \<Rightarrow> error + bytes" where
  "encode [] = Inr []"
| "encode (cp # rest) =
     (case encode_code_point cp of
        Inl e \<Rightarrow> Inl e
      | Inr bs \<Rightarrow> (case encode rest of Inl e \<Rightarrow> Inl e | Inr others \<Rightarrow> Inr (bs @ others)))"

definition continuation :: "nat \<Rightarrow> bool" where
  "continuation b = (0x80 \<le> b \<and> b \<le> 0xBF)"

fun decode :: "bytes \<Rightarrow> error + pystr" where
  "decode [] = Inr []"
| "decode (b0 # rest) =
     (if b0 < 0x80 then
        (case decode rest of Inl e \<Rightarrow> Inl e | Inr cps \<Rightarrow> Inr (b0 # cps))
      else if 0xC2 \<le> b0 \<and> b0 \<le> 0xDF then
        (case rest of
           b1 # rest1 \<Rightarrow>
             if continuation b1 then
               (case decode rest1 of
                  Inl e \<Rightarrow> Inl e
                | Inr cps \<Rightarrow> Inr (((b0 - 0xC0) * 64 + (b1 - 0x80)) # cps))
             else Inl UnicodeDecodeError
         | _ \<Rightarrow> Inl UnicodeDecodeError)
      else if 0xE0 \<le> b0 \<and> b0 \<le> 0xEF then
        (case rest of
           b1 # b2 # rest2 \<Rightarrow>
             if continuation b1 \<and> continuation b2
                \<and> (if b0 = 0xE0 then 0xA0 \<le> b1 else if b0 = 0xED then b1 \<le> 0x9F else True)
             then
               (case decode rest2 of
                  Inl e \<Rightarrow> Inl e
                | Inr cps \<Rightarrow>
                    Inr (((b0 - 0xE0) * 4096 + (b1 - 0x80) * 64 + (b2 - 0x80)) # cps))
             else Inl UnicodeDecodeError
         | _ \<Rightarrow> Inl UnicodeDecodeError)
      else if 0xF0 \<le> b0 \<and> b0 \<le> 0xF4 then
        (case rest of
           b1 # b2 # b3 # rest3 \<Rightarrow>
             if continuation b1 \<and> continuation b2 \<and> continuation b3
                \<and> (if b0 = 0xF0 then 0x90 \<le> b1 else if b0 = 0xF4 then b1 \<le> 0x8F else True)
             then
               (case decode rest3 of
                  Inl e \<Rightarrow> Inl e
                | Inr cps \<Rightarrow>
                    Inr (((b0 - 0xF0) * 262144 + (b1 - 0x80) * 4096 + (b2 - 0x80) * 64
                          + (b3 - 0x80)) # cps))
             else Inl UnicodeDecodeError
         | _ \<Rightarrow> Inl UnicodeDecodeError)
      else Inl UnicodeDecodeError)"

text \<open>
  \<open>int.to_bytes(num_bytes, "big")\<close>: OverflowError when the number does not fit.
\<close>

fun big_endian :: "nat \<Rightarrow> nat \<Rightarrow> bytes" where
  "big_endian 0 v = []"
| "big_endian (Suc n) v = big_endian n (v div 256) @ [v mod 256]"

definition to_bytes :: "nat \<Rightarrow> nat \<Rightarrow> error + bytes" where
  "to_bytes v num_bytes =
     (if v < 256 ^ num_bytes then Inr (big_endian num_bytes v) else Inl OverflowError)"

text \<open>
  \<open>write_word\<close>: the result is the data handed to \<open>writer.write\<close>.
\<close>

definition write_word :: "pystr \<Rightarrow> error + bytes" where
  "write_word word =
     (let (mask, num_bytes) =
            (if length word \<le> 0x7F then (0x00, 1)
             else if length word \<le> 0x3FFF then (0x8000, 2)
             else if length word \<le> 0x1FFFFF then (0xC00000, 3)
             else if length word \<le> 0xFFFFFFF then (0xE0000000, 4)
             else (0xF000000000, 5::nat))
      in case to_bytes (mask OR length word) num_bytes of
           Inl e \<Rightarrow> Inl e
         | Inr encoded_length \<Rightarrow>
             (case encode word of
                Inl e \<Rightarrow> Inl e
              | Inr payload \<Rightarrow> Inr (encoded_length @ payload)))"

fun write_sentence :: "pystr list \<Rightarrow> error + bytes" where
  "write_sentence [] = Inr []"
| "write_sentence (word # rest) =
     (case write_word word of
        Inl e \<Rightarrow> Inl e
      | Inr data \<Rightarrow>
          (case write_sentence rest of Inl e \<Rightarrow> Inl e | Inr others \<Rightarrow> Inr (data @ others)))"

text \<open>
  The reader side of the socket: the bytes that have arrived and are not yet consumed,
  and whether the peer has closed the stream. \<open>readexactly n\<close> returns the next \<open>n\<close>
  bytes when they are there; at the end of the stream it raises IncompleteReadError;
  otherwise it waits for bytes that are not there (\<open>Blocked\<close>).
\<close>

record reader =
  buffer :: bytes
  at_eof :: bool

definition readexactly :: "nat \<Rightarrow> reader \<Rightarrow> (error + bytes) \<times> reader" where
  "readexactly n rd =
     (if n \<le> length (buffer rd) then (Inr (take n (buffer rd)), rd\<lparr>buffer := drop n (buffer rd)\<rparr>)
      else if at_eof rd then (Inl IncompleteReadError, rd\<lparr>buffer := []\<rparr>)
      else (Inl Blocked, rd))"

text \<open>\<open>ord\<close> of a bytes object: its single byte, TypeError for any other length.\<close>

definition ord :: "bytes \<Rightarrow> error + nat" where
  "ord bs = (case bs of [b] \<Rightarrow> Inr b | _ \<Rightarrow> Inl TypeError)"

text \<open>
  \<open>read_word\<close>. The first read runs under \<open>asyncio.wait_for(..., timeout=1)\<close>: when no
  byte arrives, the timeout turns into the empty word. The later reads have no timeout.
\<close>

definition read_word :: "reader \<Rightarrow> (error + pystr) \<times> reader" where
  "read_word rd =
     (case readexactly 1 rd of
        (Inl Blocked, rd1) \<Rightarrow> (Inr [], rd1)
      | (Inl e, rd1) \<Rightarrow> (Inl e, rd1)
      | (Inr length_bytes, rd1) \<Rightarrow>
          (case ord length_bytes of
             Inl e \<Rightarrow> (Inl e, rd1)
           | Inr header \<Rightarrow>
               let num_bytes =
                     (if header AND 0xF0 = 0xF0 then 4
                      else if header AND 0xE0 = 0xE0 then 3
                      else if header AND 0xC0 = 0xC0 then 2
                      else if header AND 0x80 = 0x80 then 1
                      else 0::nat)
               in case readexactly num_bytes rd1 of
                    (Inl e, rd2) \<Rightarrow> (Inl e, rd2)
                  | (Inr others, rd2) \<Rightarrow>
                      (case ord (length_bytes @ others) of
                         Inl e \<Rightarrow> (Inl e, rd2)
                       | Inr len \<Rightarrow>
                           (case readexactly len rd2 of
                              (Inl e, rd3) \<Rightarrow> (Inl e, rd3)
                            | (Inr data, rd3) \<Rightarrow>
                                (case decode data of
                                   Inl e \<Rightarrow> (Inl e, rd3)
                                 | Inr text \<Rightarrow> (Inr text, rd3))))))"

section \<open>Connection (mikrotik.py)\<close>

text \<open>
  The fields of \<open>Connection\<close> the reader task works on. \<open>closed_event\<close> holds whether
  the event is set, \<open>idle_since\<close> is a clock reading, \<open>stream\<close> is \<open>None\<close> or the open
  socket. \<open>responses\<close> holds the pending responses by tag.
\<close>

record connection =
  closed_event :: bool
  idle_since :: nat
  responses :: "string \<rightharpoonup> response"
  stream :: "unit option"

text \<open>
  \<open>Connection.read\<close>. What \<open>read_sentence\<close> returned (an exception, \<open>None\<close> or a
  sentence) and the clock reading \<open>now\<close> are arguments.
\<close>

definition read ::
  "nat \<Rightarrow> error + response_sentence option \<Rightarrow> connection \<Rightarrow> (error + unit) \<times> connection"
  where
  "read now incoming c =
     (case stream c of
        None \<Rightarrow> (Inr (), c)
      | Some s \<Rightarrow>
          (case incoming of
             Inl e \<Rightarrow> (Inl e, c)
           | Inr None \<Rightarrow> (Inr (), c)
           | Inr (Some sentence) \<Rightarrow>
               let c1 = c\<lparr>idle_since := now\<rparr> in
               (case api_attributes sentence ''.tag'' of
                  None \<Rightarrow> (Inl (RuntimeError ''tag not found''), c1)
                | Some tg \<Rightarrow>
                    (case responses c1 tg of
                       None \<Rightarrow> (Inl (KeyError tg), c1)
                     | Some response \<Rightarrow>
                         (case update_with_sentence sentence response of
                            (Inl e, response1) \<Rightarrow>
                              (Inl e, c1\<lparr>responses := (responses c1)(tg \<mapsto> response1)\<rparr>)
                          | (Inr u, response1) \<Rightarrow>
                              if is_complete response1
                              then (Inr (), c1\<lparr>responses := (responses c1)(tg := None)\<rparr>)
                              else (Inr (),
                                    c1\<lparr>responses := (responses c1)(tg \<mapsto> response1)\<rparr>))))))"

text \<open>
  \<open>run_background_read\<close>: \<open>while not self.closed_event.is_set(): await self.read()\<close>,
  run over the sequence of things \<open>read_sentence\<close> returns. The task ends normally when
  the connection is closed, ends with the exception when \<open>read\<close> raises, and is still
  running when the sequence is used up.
\<close>

datatype task_state = Running | Finished | Failed error

fun run_background_read ::
  "(nat \<times> (error + response_sentence option)) list \<Rightarrow> connection \<Rightarrow> task_state \<times> connection"
  where
  "run_background_read [] c = (if closed_event c then Finished else Running, c)"
| "run_background_read ((now, incoming) # rest) c =
     (if closed_event c then (Finished, c)
      else case read now incoming c of
             (Inl e, c1) \<Rightarrow> (Failed e, c1)
           | (Inr u, c1) \<Rightarrow> run_background_read rest c1)"

section \<open>The response state machine\<close>

lemma deliver_error_absorbing:
  "status r = Error \<Longrightarrow> status (deliver ss r) = Error"
  by (induction ss arbitrary: r) (auto simp: update_with_sentence_def Let_def)

lemma deliver_no_trap:
  "status r \<noteq> Error \<Longrightarrow> (is_complete r \<longrightarrow> status r = Success) \<Longrightarrow>
   \<forall>s\<in>set ss. type s \<noteq> ''!trap'' \<Longrightarrow>
   status (deliver ss r) \<noteq> Error \<and>
   (is_complete (deliver ss r) \<longrightarrow> status (deliver ss r) = Success) \<and>
   (is_complete r \<or> (\<exists>s\<in>set ss. type s = ''!done'') \<longrightarrow> is_complete (deliver ss r))"
proof (induction ss arbitrary: r)
  case Nil
  then show ?case by simp
next
  case (Cons s ss)
  let ?r = "snd (update_with_sentence s r)"
  have a: "status ?r \<noteq> Error" using Cons.prems
    by (auto simp: update_with_sentence_def Let_def)
  have b: "is_complete ?r \<longrightarrow> status ?r = Success" using Cons.prems
    by (cases "status r") (auto simp: update_with_sentence_def Let_def is_complete_def)
  have c: "is_complete r \<or> type s = ''!done'' \<longrightarrow> is_complete ?r"
    by (auto simp: update_with_sentence_def Let_def is_complete_def)
  from Cons.IH[OF a b] Cons.prems(3) c show ?case by auto
qed

lemma deliver_no_done:
  "\<not> is_complete r \<Longrightarrow> \<forall>s\<in>set ss. type s \<noteq> ''!done'' \<Longrightarrow>
   \<not> is_complete (deliver ss r)"
  by (induction ss arbitrary: r) (auto simp: update_with_sentence_def Let_def is_complete_def)

lemma deliver_append: "deliver (xs @ ys) r = deliver ys (deliver xs r)"
  by (induction xs arbitrary: r) auto

text \<open>
  Claim C4. Sentences delivered to a fresh response: when the sequence ends with
  \<open>!done\<close> and holds no \<open>!trap\<close>, the status is \<open>Success\<close> and the response is
  complete; when a \<open>!trap\<close> arrives before any \<open>!done\<close>, the status is \<open>Error\<close>
  whatever follows, a later \<open>!done\<close> included; and on a complete response
  \<open>update_with_sentence\<close> and \<open>cancel\<close> raise RuntimeError and leave the response as
  it was.
\<close>

theorem response_state_machine:
  "(ss \<noteq> [] \<and> type (last ss) = ''!done'' \<and> (\<forall>s\<in>set ss. type s \<noteq> ''!trap'')
      \<longrightarrow> status (deliver ss (Response req)) = Success
          \<and> is_complete (deliver ss (Response req)))
   \<and> ((\<forall>s\<in>set pre. type s \<noteq> ''!done'') \<and> type t = ''!trap''
      \<longrightarrow> status (deliver (pre @ t # post) (Response req)) = Error)
   \<and> (is_complete r
      \<longrightarrow> update_with_sentence s r = (Inl (RuntimeError ''response is complete''), r)
          \<and> cancel r = (Inl (RuntimeError ''rresponse is complete''), r))"
proof (intro conjI impI)
  assume h: "ss \<noteq> [] \<and> type (last ss) = ''!done'' \<and> (\<forall>s\<in>set ss. type s \<noteq> ''!trap'')"
  then have d: "\<exists>s\<in>set ss. type s = ''!done''" by (meson last_in_set)
  have "status (Response req) \<noteq> Error"
    "is_complete (Response req) \<longrightarrow> status (Response req) = Success"
    by (simp_all add: Response_def is_complete_def)
  from deliver_no_trap[OF this] h d
  show "status (deliver ss (Response req)) = Success"
    "is_complete (deliver ss (Response req))"
    by blast+
next
  assume h: "(\<forall>s\<in>set pre. type s \<noteq> ''!done'') \<and> type t = ''!trap''"
  have "\<not> is_complete (Response req)" by (simp add: Response_def is_complete_def)
  with h have "\<not> is_complete (deliver pre (Response req))" by (simp add: deliver_no_done)
  with h have "status (snd (update_with_sentence t (deliver pre (Response req)))) = Error"
    by (simp add: update_with_sentence_def Let_def)
  then show "status (deliver (pre @ t # post) (Response req)) = Error"
    by (simp add: deliver_append deliver_error_absorbing)
next
  assume "is_complete r"
  then show "update_with_sentence s r = (Inl (RuntimeError ''response is complete''), r)"
    by (simp add: update_with_sentence_def)
next
  assume "is_complete r"
  then show "cancel r = (Inl (RuntimeError ''rresponse is complete''), r)"
    by (simp add: cancel_def)
qed

theorem response_state_machine_witness:
  "status (deliver [ResponseSentence ''!re'', ResponseSentence ''!done'']
      (Response \<lparr>tag = ''t1'', words = [''/ip/dns/static/print'']\<rparr>)) = Success
   \<and> status (deliver ([ResponseSentence ''!re''] @ ResponseSentence ''!trap'' #
        [ResponseSentence ''!done''])
      (Response \<lparr>tag = ''t1'', words = [''/ip/dns/static/print'']\<rparr>)) = Error
   \<and> update_with_sentence (ResponseSentence ''!re'')
        (deliver [ResponseSentence ''!done'']
          (Response \<lparr>tag = ''t1'', words = [''/ip/dns/static/print'']\<rparr>))
      = (Inl (RuntimeError ''response is complete''),
         deliver [ResponseSentence ''!done'']
          (Response \<lparr>tag = ''t1'', words = [''/ip/dns/static/print'']\<rparr>))"
  using response_state_machine
    [of "[ResponseSentence ''!re'', ResponseSentence ''!done'']"
        "\<lparr>tag = ''t1'', words = [''/ip/dns/static/print'']\<rparr>"
        "[ResponseSentence ''!re'']" "ResponseSentence ''!trap''"
        "[ResponseSentence ''!done'']"
        "deliver [ResponseSentence ''!done'']
          (Response \<lparr>tag = ''t1'', words = [''/ip/dns/static/print'']\<rparr>)"
        "ResponseSentence ''!re''"]
  by (simp add: ResponseSentence_def Response_def is_complete_def update_with_sentence_def
      Let_def)

text \<open>
  Claim C2. \<open>cancel\<close> on a fresh, in-progress response returns normally, sets the
  status to \<open>Error\<close> and appends a \<open>!trap\<close> sentence whose \<open>message\<close> is
  \<open>response cancelled\<close>, but the completion event stays unset: only a \<open>!done\<close>
  sentence sets it, so \<open>is_complete\<close> is still false afterwards.
\<close>

theorem cancel_leaves_completion_unset:
  "fst (cancel (Response req)) = Inr ()
   \<and> status (snd (cancel (Response req))) = Error
   \<and> (\<exists>s\<in>set (sentences (snd (cancel (Response req)))).
        type s = ''!trap'' \<and> attributes s ''message'' = Some ''response cancelled'')
   \<and> \<not> is_complete (snd (cancel (Response req)))"
  by (simp add: cancel_def Response_def is_complete_def update_with_sentence_def
      ResponseSentence_def Let_def)

section \<open>TTL round trip\<close>

lemma lt10_cases: "k < 10 \<Longrightarrow> k \<in> {0, 1, 2, 3, 4, 5, 6, 7, 8, 9::nat}"
  by auto

lemma digit_char_is_digit: "k < 10 \<Longrightarrow> is_digit (digit_char k)"
  by (drule lt10_cases) (auto simp: is_digit_def digit_char_def)

lemma digit_val_digit_char: "k < 10 \<Longrightarrow> digit_val (digit_char k) = k"
  by (drule lt10_cases) (auto simp: digit_val_def digit_char_def)

lemma str_nat_digits: "c \<in> set (str_nat n) \<Longrightarrow> is_digit c"
proof (induction n arbitrary: c rule: str_nat.induct)
  case (1 n)
  show ?case
  proof (cases "n < 10")
    case True
    with 1 show ?thesis by (simp add: str_nat.simps[of n] digit_char_is_digit)
  next
    case False
    with 1 show ?thesis
      by (auto simp: str_nat.simps[of n] digit_char_is_digit)
  qed
qed

lemma str_nat_nonempty: "str_nat n \<noteq> []"
  by (subst str_nat.simps) simp

lemma foldl_str_nat: "foldl (\<lambda>acc c. 10 * acc + digit_val c) 0 (str_nat n) = n"
proof (induction n rule: str_nat.induct)
  case (1 n)
  show ?case
  proof (cases "n < 10")
    case True
    then show ?thesis by (simp add: str_nat.simps[of n] digit_val_digit_char)
  next
    case False
    with 1 show ?thesis
      by (simp add: str_nat.simps[of n] digit_val_digit_char)
  qed
qed

lemma int_of_str_str_nat: "int_of_str (str_nat n) = Inr (int n)"
  by (simp add: int_of_str_def str_nat_nonempty str_nat_digits foldl_str_nat)

lemma match_group_str_nat:
  assumes "\<not> is_digit key"
  shows "match_group key (str_nat n @ key # rest) = (Some (str_nat n @ [key]), rest)"
proof -
  have t: "takeWhile is_digit (str_nat n @ key # rest) = str_nat n"
    using assms by (simp add: takeWhile_tail str_nat_digits)
  have d: "dropWhile is_digit (str_nat n @ key # rest) = key # rest"
    using assms by (simp add: dropWhile_append2 str_nat_digits)
  show ?thesis by (simp add: match_group_def t d str_nat_nonempty)
qed

lemma filter_key_str_nat:
  "\<not> is_digit key \<Longrightarrow> filter (\<lambda>c. c \<noteq> key) (str_nat n) = str_nat n"
  by (auto simp: filter_id_conv dest: str_nat_digits)

lemma keys_not_digits:
  "\<not> is_digit CHR ''w''" "\<not> is_digit CHR ''d''" "\<not> is_digit CHR ''h''"
  "\<not> is_digit CHR ''m''" "\<not> is_digit CHR ''s''"
  by (simp_all add: is_digit_def)

lemma to_external_dns_ttl_segments:
  "to_external_dns_ttl (str_nat w @ ''w'' @ str_nat d @ ''d'' @ str_nat h @ ''h'' @
      str_nat m @ ''m'' @ str_nat s @ ''s'')
   = Inr (int s + int m * 60 + int h * 60 * 60 + int d * 60 * 60 * 24 + int w * 60 * 60 * 24 * 7)"
  by (simp add: to_external_dns_ttl_def regex_match_def match_group_str_nat keys_not_digits
      filter_key_str_nat int_of_str_str_nat part_def)

lemma str_int_nonneg: "0 \<le> i \<Longrightarrow> str_int i = str_nat (nat i)"
  by (simp add: str_int_def)

lemma int_truediv_nonneg: "0 \<le> a \<Longrightarrow> 0 < b \<Longrightarrow> int_truediv a b = a div b"
  by (simp add: int_truediv_def)

lemma to_routeros_ttl_nonneg:
  assumes "0 \<le> n" "n \<le> 86399999999999"
  shows "to_routeros_ttl n =
     Inr (str_nat (nat (n div 86400 div 7)) @ ''w'' @ str_nat (nat (n div 86400 mod 7)) @ ''d'' @
          str_nat (nat (n mod 86400 div 3600)) @ ''h'' @
          str_nat (nat (n mod 86400 mod 3600 div 60)) @ ''m'' @
          str_nat (nat (n mod 86400 mod 60)) @ ''s'')"
proof -
  have d0: "0 \<le> n div 86400" using assms by (simp add: pos_imp_zdiv_nonneg_iff)
  have d1: "n div 86400 \<le> 999999999" using assms by linarith
  have td: "timedelta n = Inr (n div 86400, n mod 86400)"
    using d0 d1 by (simp add: timedelta_def Let_def)
  have s0: "0 \<le> n mod 86400" by simp
  have s1: "0 \<le> n mod 86400 mod 3600" by simp
  have w: "str_int (int_truediv (n div 86400) 7) = str_nat (nat (n div 86400 div 7))"
    using d0 by (simp add: int_truediv_nonneg str_int_nonneg pos_imp_zdiv_nonneg_iff)
  have d: "str_int (n div 86400 mod 7) = str_nat (nat (n div 86400 mod 7))"
    by (simp add: str_int_nonneg)
  have h: "str_int (int_truediv (n mod 86400) (60 * 60)) = str_nat (nat (n mod 86400 div 3600))"
    using s0 by (simp add: int_truediv_nonneg str_int_nonneg pos_imp_zdiv_nonneg_iff)
  have m: "str_int (int_truediv (n mod 86400 mod (60 * 60)) 60)
            = str_nat (nat (n mod 86400 mod 3600 div 60))"
    using s1 by (simp add: int_truediv_nonneg str_int_nonneg pos_imp_zdiv_nonneg_iff)
  have s: "str_int (n mod 86400 mod 60) = str_nat (nat (n mod 86400 mod 60))"
    by (simp add: str_int_nonneg)
  show ?thesis
    unfolding to_routeros_ttl_def td Let_def by (simp only: sum.case prod.case w d h m s)
qed

lemma ttl_sum:
  fixes n :: int
  assumes "0 \<le> n"
  shows "int (nat (n mod 86400 mod 60)) + int (nat (n mod 86400 mod 3600 div 60)) * 60 +
     int (nat (n mod 86400 div 3600)) * 60 * 60 + int (nat (n div 86400 mod 7)) * 60 * 60 * 24 +
     int (nat (n div 86400 div 7)) * 60 * 60 * 24 * 7 = n"
proof -
  define days where "days = n div 86400"
  define secs where "secs = n mod 86400"
  have n: "n = 86400 * days + secs"
    by (simp add: days_def secs_def)
  have dn: "0 \<le> days" using assms by (simp add: days_def pos_imp_zdiv_nonneg_iff)
  have sn: "0 \<le> secs" by (simp add: secs_def)
  have d: "days = 7 * (days div 7) + days mod 7" by simp
  have s1: "secs = 3600 * (secs div 3600) + secs mod 3600" by simp
  have s2: "secs mod 3600 = 60 * (secs mod 3600 div 60) + secs mod 3600 mod 60" by simp
  have s3: "secs mod 3600 mod 60 = secs mod 60"
    by (rule mod_mod_cancel) simp
  have p1: "int (nat (days div 7)) = days div 7" using dn by (simp add: pos_imp_zdiv_nonneg_iff)
  have p2: "int (nat (days mod 7)) = days mod 7" by simp
  have p3: "int (nat (secs div 3600)) = secs div 3600" using sn by (simp add: pos_imp_zdiv_nonneg_iff)
  have p4: "int (nat (secs mod 3600 div 60)) = secs mod 3600 div 60" by (simp add: pos_imp_zdiv_nonneg_iff)
  have p5: "int (nat (secs mod 60)) = secs mod 60" by simp
  have "secs mod 60 + (secs mod 3600 div 60) * 60 + (secs div 3600) * 60 * 60
        + (days mod 7) * 60 * 60 * 24 + (days div 7) * 60 * 60 * 24 * 7 = n"
    using n d s1 s2 s3 by linarith
  then show ?thesis
    unfolding days_def[symmetric] secs_def[symmetric] p1 p2 p3 p4 p5 .
qed

text \<open>
  Claim C7 (amended). For every integer \<open>n\<close> from 0 to 86399999999999, the largest number
  of seconds \<open>datetime.timedelta\<close> accepts, \<open>to_routeros_ttl n\<close> is the five
  segments in the order w, d, h, m, s, each with its decimal number (zero included), and
  \<open>to_external_dns_ttl\<close> of that string is \<open>n\<close> again. The four examples of the
  claim hold in both directions.
\<close>

theorem ttl_roundtrip:
  "(0 \<le> n \<and> n \<le> 86399999999999 \<longrightarrow>
      (\<exists>w d h m s.
         to_routeros_ttl n =
           Inr (str_nat w @ ''w'' @ str_nat d @ ''d'' @ str_nat h @ ''h'' @
                str_nat m @ ''m'' @ str_nat s @ ''s'') \<and>
         to_external_dns_ttl
           (str_nat w @ ''w'' @ str_nat d @ ''d'' @ str_nat h @ ''h'' @
            str_nat m @ ''m'' @ str_nat s @ ''s'') = Inr n))
   \<and> to_routeros_ttl 0 = Inr ''0w0d0h0m0s'' \<and> to_external_dns_ttl ''0w0d0h0m0s'' = Inr 0
   \<and> to_routeros_ttl 694861 = Inr ''1w1d1h1m1s''
   \<and> to_external_dns_ttl ''1w1d1h1m1s'' = Inr 694861
   \<and> to_routeros_ttl 86400 = Inr ''0w1d0h0m0s''
   \<and> to_external_dns_ttl ''0w1d0h0m0s'' = Inr 86400
   \<and> to_routeros_ttl 59 = Inr ''0w0d0h0m59s''
   \<and> to_external_dns_ttl ''0w0d0h0m59s'' = Inr 59"
proof (intro conjI impI)
  assume b: "0 \<le> n \<and> n \<le> 86399999999999"
  let ?w = "nat (n div 86400 div 7)" and ?d = "nat (n div 86400 mod 7)"
  let ?h = "nat (n mod 86400 div 3600)" and ?m = "nat (n mod 86400 mod 3600 div 60)"
  let ?s = "nat (n mod 86400 mod 60)"
  let ?t = "str_nat ?w @ ''w'' @ str_nat ?d @ ''d'' @ str_nat ?h @ ''h'' @
            str_nat ?m @ ''m'' @ str_nat ?s @ ''s''"
  have a: "to_routeros_ttl n = Inr ?t"
    using b by (intro to_routeros_ttl_nonneg) simp_all
  have "to_external_dns_ttl ?t = Inr n"
    using b by (simp only: to_external_dns_ttl_segments ttl_sum)
  with a show "\<exists>w d h m s.
         to_routeros_ttl n =
           Inr (str_nat w @ ''w'' @ str_nat d @ ''d'' @ str_nat h @ ''h'' @
                str_nat m @ ''m'' @ str_nat s @ ''s'') \<and>
         to_external_dns_ttl
           (str_nat w @ ''w'' @ str_nat d @ ''d'' @ str_nat h @ ''h'' @
            str_nat m @ ''m'' @ str_nat s @ ''s'') = Inr n"
    by blast
next
  show "to_routeros_ttl 0 = Inr ''0w0d0h0m0s''" by code_simp
next
  show "to_external_dns_ttl ''0w0d0h0m0s'' = Inr 0" by code_simp
next
  show "to_routeros_ttl 694861 = Inr ''1w1d1h1m1s''" by code_simp
next
  show "to_external_dns_ttl ''1w1d1h1m1s'' = Inr 694861" by code_simp
next
  show "to_routeros_ttl 86400 = Inr ''0w1d0h0m0s''" by code_simp
next
  show "to_external_dns_ttl ''0w1d0h0m0s'' = Inr 86400" by code_simp
next
  show "to_routeros_ttl 59 = Inr ''0w0d0h0m59s''" by code_simp
next
  show "to_external_dns_ttl ''0w0d0h0m59s'' = Inr 59" by code_simp
qed

theorem ttl_roundtrip_witness:
  "(0::int) \<le> 3600 \<and> (3600::int) \<le> 86399999999999 \<and>
   (\<exists>w d h m s.
      to_routeros_ttl 3600 =
        Inr (str_nat w @ ''w'' @ str_nat d @ ''d'' @ str_nat h @ ''h'' @
             str_nat m @ ''m'' @ str_nat s @ ''s'') \<and>
      to_external_dns_ttl
        (str_nat w @ ''w'' @ str_nat d @ ''d'' @ str_nat h @ ''h'' @
         str_nat m @ ''m'' @ str_nat s @ ''s'') = Inr 3600)"
proof -
  have h: "(0::int) \<le> 3600 \<and> (3600::int) \<le> 86399999999999" by simp
  from ttl_roundtrip [of 3600] h show ?thesis by blast
qed

text \<open>
  Claim C7 as stated covers every \<open>n \<ge> 0\<close>; at 86400000000000 seconds the timedelta
  has 1000000000 days and \<open>to_routeros_ttl\<close> raises OverflowError.
\<close>

theorem ttl_roundtrip_counterexample:
  "to_routeros_ttl 86400000000000 = Inl OverflowError"
  by code_simp

section \<open>Attribute words\<close>

lemma to_api_attribute_words_bad_key:
  "(key, v) \<in> set val \<Longrightarrow> \<not> startswith key ''.'' \<Longrightarrow>
   \<exists>k. k \<in> fst ` set val \<and> \<not> startswith k ''.'' \<and>
       to_api_attribute_words val = Inl (ValueError (''key missing . prefix: '' @ k))"
proof (induction val)
  case Nil
  then show ?case by simp
next
  case (Cons kv val)
  obtain k0 v0 where kv: "kv = (k0, v0)" by (cases kv)
  show ?case
  proof (cases "startswith k0 ''.''")
    case False
    then show ?thesis using kv by auto
  next
    case True
    with Cons.prems kv have "(key, v) \<in> set val" by auto
    from Cons.IH[OF this Cons.prems(2)] obtain k where
      "k \<in> fst ` set val" "\<not> startswith k ''.''"
      "to_api_attribute_words val = Inl (ValueError (''key missing . prefix: '' @ k))"
      by blast
    with True kv show ?thesis by auto
  qed
qed

text \<open>
  Claim C8. The dictionary \<open>{"str": "a", "int": 1, "bool": True, "none": None}\<close>
  gives the words \<open>=str=a\<close>, \<open>=int=1\<close>, \<open>=bool=true\<close>, \<open>=none=\<close> in that order;
  booleans render as \<open>true\<close> and \<open>false\<close>, \<open>None\<close> as the empty string; and
  \<open>to_api_attribute_words\<close> raises ValueError, naming a key without the dot, whenever
  the dictionary holds a key that does not start with a dot.
\<close>

theorem attribute_words:
  "to_attribute_words
     [(''str'', VStr ''a''), (''int'', VInt 1), (''bool'', VBool True), (''none'', VNone)]
     = [''=str=a'', ''=int=1'', ''=bool=true'', ''=none='']
   \<and> to_word_value (VBool True) = ''true''
   \<and> to_word_value (VBool False) = ''false''
   \<and> to_word_value VNone = []
   \<and> ((key, v) \<in> set val \<and> \<not> startswith key ''.'' \<longrightarrow>
        (\<exists>k. k \<in> fst ` set val \<and> \<not> startswith k ''.'' \<and>
             to_api_attribute_words val = Inl (ValueError (''key missing . prefix: '' @ k))))"
proof (intro conjI impI)
  show "to_attribute_words
     [(''str'', VStr ''a''), (''int'', VInt 1), (''bool'', VBool True), (''none'', VNone)]
     = [''=str=a'', ''=int=1'', ''=bool=true'', ''=none='']"
    by code_simp
next
  assume "(key, v) \<in> set val \<and> \<not> startswith key ''.''"
  then show "\<exists>k. k \<in> fst ` set val \<and> \<not> startswith k ''.'' \<and>
             to_api_attribute_words val = Inl (ValueError (''key missing . prefix: '' @ k))"
    using to_api_attribute_words_bad_key by blast
qed simp_all

theorem attribute_words_witness:
  "(''id'', VStr ''*1'') \<in> set [(''.tag'', VStr ''abc''), (''id'', VStr ''*1'')]
   \<and> \<not> startswith ''id'' ''.''
   \<and> to_api_attribute_words [(''.tag'', VStr ''abc''), (''id'', VStr ''*1'')]
       = Inl (ValueError ''key missing . prefix: id'')"
  using attribute_words [of "''id''" "VStr ''*1''" "[(''.tag'', VStr ''abc''), (''id'', VStr ''*1'')]"]
  by (simp add: startswith_def)

section \<open>Record lookup\<close>

lemma RecordMap_add_lookup:
  "(case RecordMap_add records data n of None \<Rightarrow> [] | Some l \<Rightarrow> l)
   = (case data n of None \<Rightarrow> [] | Some l \<Rightarrow> l) @ filter (\<lambda>r. name r = n) records"
  by (induction records arbitrary: data) auto

lemma find_item_find:
  "find_item items target =
   List.find (\<lambda>item. variant item = IpDnsARecord target \<or> variant item = IpDnsCnameRecord target
                 \<or> variant item = IpDnsTxtRecord target) items"
  by (induction items) (auto split: ip_dns_variant.splits)

text \<open>
  Claim C9. \<open>RecordMap.find\<close> returns the first record, in listing order, among those
  whose name is the endpoint's \<open>dns_name\<close>, that is an A record with that address, a
  CNAME record with that cname or a TXT record with that text. The endpoint's
  \<open>record_type\<close> plays no part: changing it changes nothing, and a TXT endpoint finds
  an A record whose address is the target.
\<close>

theorem RecordMap_find_ignores_record_type:
  "RecordMap_find (RecordMap records) endpoint target
     = List.find (\<lambda>item. variant item = IpDnsARecord target
                        \<or> variant item = IpDnsCnameRecord target
                        \<or> variant item = IpDnsTxtRecord target)
         (filter (\<lambda>r. name r = dns_name endpoint) records)
   \<and> RecordMap_find data (endpoint\<lparr>record_type := rt\<rparr>) target
     = RecordMap_find data endpoint target
   \<and> RecordMap_find
       (RecordMap [\<lparr>disabled = False, record_id = Some ''*1'', match_subdomain = False,
                    name = ''svc.lan'', ttl = ''0w1d0h0m0s'',
                    variant = IpDnsARecord ''10.0.0.5''\<rparr>])
       \<lparr>dns_name = ''svc.lan'', targets = [''10.0.0.5''], record_type = TXT,
        set_identifier = None, record_ttl = None, labels = None, provider_specific = None\<rparr>
       ''10.0.0.5''
     = Some \<lparr>disabled = False, record_id = Some ''*1'', match_subdomain = False,
             name = ''svc.lan'', ttl = ''0w1d0h0m0s'', variant = IpDnsARecord ''10.0.0.5''\<rparr>"
proof (intro conjI)
  show "RecordMap_find (RecordMap records) endpoint target
     = List.find (\<lambda>item. variant item = IpDnsARecord target
                        \<or> variant item = IpDnsCnameRecord target
                        \<or> variant item = IpDnsTxtRecord target)
         (filter (\<lambda>r. name r = dns_name endpoint) records)"
    unfolding RecordMap_find_def RecordMap_def RecordMap_add_lookup find_item_find by simp
next
  show "RecordMap_find data (endpoint\<lparr>record_type := rt\<rparr>) target
     = RecordMap_find data endpoint target"
    by (simp add: RecordMap_find_def)
qed (simp add: RecordMap_find_def RecordMap_def)

section \<open>Default TTL\<close>

lemma to_routeros_ttl_day: "to_routeros_ttl 86400 = Inr ''0w1d0h0m0s''"
  by code_simp

text \<open>
  Claim C10 (amended). A \<open>record_ttl\<close> of 0 is treated as an absent one: for every
  endpoint \<open>to_routeros_record\<close> gives the same result for both. For an endpoint whose
  \<open>record_ttl\<close> is 0 or \<open>None\<close> and whose record type is A, CNAME or TXT, the record is
  built from the ttl \<open>0w1d0h0m0s\<close> (86400 seconds): \<open>IpDnsRecord\<close> is called with
  that ttl, and a constructor that keeps its fields returns a record with it. For any
  other record type \<open>to_routeros_record\<close> raises NotImplementedError and there is no
  record.
\<close>

theorem zero_ttl_is_default:
  "(to_routeros_record IpDnsRecord (endpoint\<lparr>record_ttl := Some 0\<rparr>) target
      = to_routeros_record IpDnsRecord (endpoint\<lparr>record_ttl := None\<rparr>) target)
   \<and> ((record_ttl endpoint = None \<or> record_ttl endpoint = Some 0) \<and>
       record_type endpoint \<in> {A, CNAME, TXT}
      \<longrightarrow> to_routeros_record IpDnsRecord endpoint target
            = IpDnsRecord
                \<lparr>kw_disabled = False, kw_dynamic = False,
                 kw_match_subdomain = startswith target ''*.'',
                 kw_name = dns_name endpoint, kw_ttl = ''0w1d0h0m0s'',
                 kw_variant =
                   (if record_type endpoint = A then IpDnsARecord target
                    else if record_type endpoint = CNAME then IpDnsCnameRecord target
                    else IpDnsTxtRecord target)\<rparr>
          \<and> (\<exists>r. to_routeros_record IpDnsRecord_spec endpoint target = Inr r
                  \<and> ttl r = ''0w1d0h0m0s''))
   \<and> ((record_ttl endpoint = None \<or> record_ttl endpoint = Some 0) \<and>
       record_type endpoint \<notin> {A, CNAME, TXT}
      \<longrightarrow> to_routeros_record IpDnsRecord endpoint target = Inl NotImplementedError)
   \<and> to_external_dns_ttl ''0w1d0h0m0s'' = Inr 86400"
proof (intro conjI impI)
  show "to_routeros_record IpDnsRecord (endpoint\<lparr>record_ttl := Some 0\<rparr>) target
      = to_routeros_record IpDnsRecord (endpoint\<lparr>record_ttl := None\<rparr>) target"
    by (simp add: to_routeros_record_def to_routeros_ttl_day Let_def)
next
  assume "(record_ttl endpoint = None \<or> record_ttl endpoint = Some 0) \<and>
       record_type endpoint \<in> {A, CNAME, TXT}"
  then show "to_routeros_record IpDnsRecord endpoint target
            = IpDnsRecord
                \<lparr>kw_disabled = False, kw_dynamic = False,
                 kw_match_subdomain = startswith target ''*.'',
                 kw_name = dns_name endpoint, kw_ttl = ''0w1d0h0m0s'',
                 kw_variant =
                   (if record_type endpoint = A then IpDnsARecord target
                    else if record_type endpoint = CNAME then IpDnsCnameRecord target
                    else IpDnsTxtRecord target)\<rparr>"
    by (auto simp: to_routeros_record_def to_routeros_ttl_day Let_def)
next
  assume "(record_ttl endpoint = None \<or> record_ttl endpoint = Some 0) \<and>
       record_type endpoint \<in> {A, CNAME, TXT}"
  then show "\<exists>r. to_routeros_record IpDnsRecord_spec endpoint target = Inr r
                  \<and> ttl r = ''0w1d0h0m0s''"
    by (auto simp: to_routeros_record_def to_routeros_ttl_day Let_def IpDnsRecord_spec_def)
next
  assume "(record_ttl endpoint = None \<or> record_ttl endpoint = Some 0) \<and>
       record_type endpoint \<notin> {A, CNAME, TXT}"
  then show "to_routeros_record IpDnsRecord endpoint target = Inl NotImplementedError"
    by (auto simp: to_routeros_record_def to_routeros_ttl_day Let_def)
next
  show "to_external_dns_ttl ''0w1d0h0m0s'' = Inr 86400" by code_simp
qed

theorem zero_ttl_is_default_witness:
  "record_ttl \<lparr>dns_name = ''svc.lan'', targets = [''10.0.0.5''], record_type = A,
        set_identifier = None, record_ttl = Some 0, labels = None,
        provider_specific = None\<rparr> = Some 0
   \<and> to_routeros_record IpDnsRecord_spec
       \<lparr>dns_name = ''svc.lan'', targets = [''10.0.0.5''], record_type = A,
        set_identifier = None, record_ttl = Some 0, labels = None,
        provider_specific = None\<rparr> ''10.0.0.5''
     = Inr \<lparr>disabled = False, record_id = None, match_subdomain = False,
            name = ''svc.lan'', ttl = ''0w1d0h0m0s'', variant = IpDnsARecord ''10.0.0.5''\<rparr>"
proof -
  let ?e = "\<lparr>dns_name = ''svc.lan'', targets = [''10.0.0.5''], record_type = A,
        set_identifier = None, record_ttl = Some 0, labels = None,
        provider_specific = None\<rparr>"
  have h: "(record_ttl ?e = None \<or> record_ttl ?e = Some 0) \<and>
       record_type ?e \<in> {A, CNAME, TXT}"
    by simp
  have "to_routeros_record IpDnsRecord_spec ?e ''10.0.0.5''
          = IpDnsRecord_spec
              \<lparr>kw_disabled = False, kw_dynamic = False,
               kw_match_subdomain = startswith ''10.0.0.5'' ''*.'',
               kw_name = dns_name ?e, kw_ttl = ''0w1d0h0m0s'',
               kw_variant =
                 (if record_type ?e = A then IpDnsARecord ''10.0.0.5''
                  else if record_type ?e = CNAME then IpDnsCnameRecord ''10.0.0.5''
                  else IpDnsTxtRecord ''10.0.0.5'')\<rparr>"
    using zero_ttl_is_default
      [where IpDnsRecord = IpDnsRecord_spec and endpoint = ?e and target = "''10.0.0.5''"] h
    by blast
  then show ?thesis by (simp add: IpDnsRecord_spec_def startswith_def)
qed

text \<open>
  Claim C10 as stated covers every endpoint with \<open>record_ttl\<close> 0. For a PTR endpoint
  with \<open>record_ttl\<close> 0 there is no record: the call raises NotImplementedError.
\<close>

theorem zero_ttl_is_default_counterexample:
  "to_routeros_record IpDnsRecord_spec
       \<lparr>dns_name = ''svc.lan'', targets = [''10.0.0.5''], record_type = PTR,
        set_identifier = None, record_ttl = Some 0, labels = None,
        provider_specific = None\<rparr> ''10.0.0.5''
     = Inl NotImplementedError"
  by (simp add: to_routeros_record_def to_routeros_ttl_day Let_def)

section \<open>The calls of apply_changes\<close>

lemma to_routeros_ttl_not_blocked: "to_routeros_ttl n \<noteq> Inl Blocked"
  by (simp add: to_routeros_ttl_def timedelta_def Let_def split: sum.splits prod.splits)

lemma to_routeros_record_not_blocked:
  assumes "returning IpDnsRecord"
  shows "to_routeros_record IpDnsRecord e t \<noteq> Inl Blocked"
proof -
  have k: "IpDnsRecord kw \<noteq> Inl Blocked" for kw
    using assms by (simp add: returning_def)
  show ?thesis
    using to_routeros_ttl_not_blocked
    by (auto simp: to_routeros_record_def Let_def k split: sum.splits)
qed

lemma responsive_add:
  assumes "responsive c" "add_ip_dns_record c r d = (res, d1)"
  shows "res \<noteq> Inl Blocked"
proof -
  have "fst (add_ip_dns_record c r d) \<noteq> Inl Blocked"
    using assms(1) unfolding responsive_def by blast
  then show ?thesis by (simp add: assms(2))
qed

lemma responsive_delete:
  assumes "responsive c" "delete_ip_dns_record c r d = (res, d1)"
  shows "res \<noteq> Inl Blocked"
proof -
  have "fst (delete_ip_dns_record c r d) \<noteq> Inl Blocked"
    using assms(1) unfolding responsive_def by blast
  then show ?thesis by (simp add: assms(2))
qed

lemma responsive_traced:
  assumes "responsive c"
  shows "responsive (traced c)"
  unfolding responsive_def
proof (intro allI conjI)
  fix r and s :: "'a \<times> device_call list"
  obtain d log where s: "s = (d, log)" by (cases s)
  obtain res d1 where a: "add_ip_dns_record c r d = (res, d1)"
    by (cases "add_ip_dns_record c r d")
  show "fst (add_ip_dns_record (traced c) r s) \<noteq> Inl Blocked"
    using responsive_add[OF assms a] by (simp add: traced_def s a)
  obtain res2 d2 where b: "delete_ip_dns_record c r d = (res2, d2)"
    by (cases "delete_ip_dns_record c r d")
  show "fst (delete_ip_dns_record (traced c) r s) \<noteq> Inl Blocked"
    using responsive_delete[OF assms b] by (simp add: traced_def s b)
qed

lemma create_step:
  assumes "responsive c" "returning IpDnsRecord"
  shows "\<exists>d1. log_action (create_body IpDnsRecord c e t d) = (Inr (), d1)"
proof (cases "to_routeros_record IpDnsRecord e t")
  case (Inl x)
  then have "x \<noteq> Blocked" using to_routeros_record_not_blocked[OF assms(2), of e t] by auto
  then show ?thesis using Inl by (simp add: create_body_def log_action_def)
next
  case (Inr r)
  obtain res d1 where a: "add_ip_dns_record c r d = (res, d1)"
    by (cases "add_ip_dns_record c r d")
  have "res \<noteq> Inl Blocked" by (rule responsive_add[OF assms(1) a])
  then show ?thesis using Inr a
    by (cases res) (simp_all add: create_body_def log_action_def)
qed

lemma delete_step:
  assumes "responsive c"
  shows "\<exists>d1. log_action (delete_body c rm e t d) = (Inr (), d1)"
proof (cases "RecordMap_find rm e t")
  case None
  then show ?thesis by (simp add: delete_body_def log_action_def)
next
  case (Some r)
  obtain res d1 where a: "delete_ip_dns_record c r d = (res, d1)"
    by (cases "delete_ip_dns_record c r d")
  have "res \<noteq> Inl Blocked" by (rule responsive_delete[OF assms a])
  then show ?thesis using Some a
    by (cases res) (simp_all add: delete_body_def log_action_def)
qed

lemma create_targets_returns:
  assumes "responsive c" "returning IpDnsRecord"
  shows "\<exists>d1. create_targets IpDnsRecord c e ts d = (Inr (), d1)"
proof (induction ts arbitrary: d)
  case Nil
  show ?case by simp
next
  case (Cons t ts)
  obtain d1 where "log_action (create_body IpDnsRecord c e t d) = (Inr (), d1)"
    using create_step[OF assms] by blast
  then show ?case using Cons.IH[of d1] by simp
qed

lemma delete_targets_returns:
  assumes "responsive c"
  shows "\<exists>d1. delete_targets c rm e ts d = (Inr (), d1)"
proof (induction ts arbitrary: d)
  case Nil
  show ?case by simp
next
  case (Cons t ts)
  obtain d1 where "log_action (delete_body c rm e t d) = (Inr (), d1)"
    using delete_step[OF assms] by blast
  then show ?case using Cons.IH[of d1] by simp
qed

lemma handle_creates_returns:
  assumes "responsive c" "returning IpDnsRecord"
  shows "\<exists>d1. handle_creates IpDnsRecord c es d = (Inr (), d1)"
proof (induction es arbitrary: d)
  case Nil
  show ?case by simp
next
  case (Cons e es)
  obtain d1 where "create_targets IpDnsRecord c e (targets e) d = (Inr (), d1)"
    using create_targets_returns[OF assms] by blast
  then show ?case using Cons.IH[of d1] by simp
qed

lemma handle_deletes_returns:
  assumes "responsive c"
  shows "\<exists>d1. handle_deletes c rm es d = (Inr (), d1)"
proof (induction es arbitrary: d)
  case Nil
  show ?case by simp
next
  case (Cons e es)
  obtain d1 where "delete_targets c rm e (targets e) d = (Inr (), d1)"
    using delete_targets_returns[OF assms] by blast
  then show ?case using Cons.IH[of d1] by simp
qed

lemma handle_updates_returns:
  assumes "responsive c" "returning IpDnsRecord"
  shows "\<exists>d1. handle_updates IpDnsRecord c order rm i us d = (Inr (), d1)"
proof (induction us arbitrary: d i)
  case Nil
  show ?case by simp
next
  case (Cons u us)
  obtain old new where u: "u = (old, new)" by (cases u)
  obtain d1 where s1: "delete_targets c rm new
      (order i Removed (set (targets old) - set (targets new))) d = (Inr (), d1)"
    using delete_targets_returns[OF assms(1)] by blast
  obtain d2 where s2: "create_targets IpDnsRecord c new
      (order i Added (set (targets new) - set (targets old))) d1 = (Inr (), d2)"
    using create_targets_returns[OF assms] by blast
  show ?case using Cons.IH[where d = d2 and i = "Suc i"] u s1 s2 by (simp add: Let_def)
qed

lemma apply_changes_returns:
  assumes "fst (list_ip_dns_records c d) = Inr records"
    and "responsive c" "returning IpDnsRecord"
  shows "fst (apply_changes IpDnsRecord c order chg d) = Inr ()"
proof -
  obtain d0 where l: "list_ip_dns_records c d = (Inr records, d0)"
    using assms(1) by (cases "list_ip_dns_records c d") simp
  obtain d1 where s1: "handle_creates IpDnsRecord c (or_empty (create chg)) d0 = (Inr (), d1)"
    using handle_creates_returns[OF assms(2,3)] by blast
  obtain d2 where s2: "handle_deletes c (RecordMap records) (or_empty (delete chg)) d1
      = (Inr (), d2)"
    using handle_deletes_returns[OF assms(2)] by blast
  obtain d3 where s3: "handle_updates IpDnsRecord c order (RecordMap records) 0
      (zip (or_empty (update_old chg)) (or_empty (update_new chg))) d2 = (Inr (), d3)"
    using handle_updates_returns[OF assms(2,3)] by blast
  show ?thesis by (simp add: apply_changes_def Let_def l s1 s2 s3)
qed

lemma log_action_state: "snd (log_action body) = snd body"
  by (cases body) (auto simp: log_action_def split: sum.splits)

lemma traced_create_body:
  "snd (snd (create_body IpDnsRecord (traced c) e t (d, log)))
   = log @ (case to_routeros_record IpDnsRecord e t of
              Inl x \<Rightarrow> [] | Inr record \<Rightarrow> [AddCall record])"
  by (auto simp: create_body_def traced_def split: sum.splits prod.splits)

lemma traced_delete_body:
  "snd (snd (delete_body (traced c) rm e t (d, log)))
   = log @ (case RecordMap_find rm e t of None \<Rightarrow> [] | Some record \<Rightarrow> [DeleteCall record])"
  by (auto simp: delete_body_def traced_def split: option.splits prod.splits)

lemma traced_create_targets:
  assumes "responsive c" "returning IpDnsRecord"
  shows "\<exists>d1. create_targets IpDnsRecord (traced c) e ts (d, log)
           = (Inr (), (d1, log @ adds_for IpDnsRecord e ts))"
proof (induction ts arbitrary: d log)
  case Nil
  show ?case by (simp add: adds_for_def)
next
  case (Cons t ts)
  let ?step = "log_action (create_body IpDnsRecord (traced c) e t (d, log))"
  obtain s where s: "?step = (Inr (), s)"
    using create_step[OF responsive_traced[OF assms(1)] assms(2)] by blast
  obtain d1 log1 where p: "s = (d1, log1)" by (cases s)
  have "log1 = snd (snd ?step)" using s p by simp
  also have "\<dots> = log @ (case to_routeros_record IpDnsRecord e t of
              Inl x \<Rightarrow> [] | Inr record \<Rightarrow> [AddCall record])"
    by (simp only: log_action_state traced_create_body)
  finally have l: "log1 = log @ (case to_routeros_record IpDnsRecord e t of
              Inl x \<Rightarrow> [] | Inr record \<Rightarrow> [AddCall record])" .
  obtain d2 where "create_targets IpDnsRecord (traced c) e ts (d1, log1)
           = (Inr (), (d2, log1 @ adds_for IpDnsRecord e ts))"
    using Cons.IH[of d1 log1] by blast
  then show ?case using s p l by (simp add: adds_for_def)
qed

lemma traced_delete_targets:
  assumes "responsive c"
  shows "\<exists>d1. delete_targets (traced c) rm e ts (d, log)
           = (Inr (), (d1, log @ deletes_for rm e ts))"
proof (induction ts arbitrary: d log)
  case Nil
  show ?case by (simp add: deletes_for_def)
next
  case (Cons t ts)
  let ?step = "log_action (delete_body (traced c) rm e t (d, log))"
  obtain s where s: "?step = (Inr (), s)"
    using delete_step[OF responsive_traced[OF assms]] by blast
  obtain d1 log1 where p: "s = (d1, log1)" by (cases s)
  have "log1 = snd (snd ?step)" using s p by simp
  also have "\<dots> = log @ (case RecordMap_find rm e t of
              None \<Rightarrow> [] | Some record \<Rightarrow> [DeleteCall record])"
    by (simp only: log_action_state traced_delete_body)
  finally have l: "log1 = log @ (case RecordMap_find rm e t of
              None \<Rightarrow> [] | Some record \<Rightarrow> [DeleteCall record])" .
  obtain d2 where "delete_targets (traced c) rm e ts (d1, log1)
           = (Inr (), (d2, log1 @ deletes_for rm e ts))"
    using Cons.IH[of d1 log1] by blast
  then show ?case using s p l by (simp add: deletes_for_def)
qed

lemma traced_handle_creates:
  assumes "responsive c" "returning IpDnsRecord"
  shows "\<exists>d1. handle_creates IpDnsRecord (traced c) es (d, log)
           = (Inr (), (d1, log @ concat (map (\<lambda>e. adds_for IpDnsRecord e (targets e)) es)))"
proof (induction es arbitrary: d log)
  case Nil
  show ?case by simp
next
  case (Cons e es)
  obtain d1 where s: "create_targets IpDnsRecord (traced c) e (targets e) (d, log)
           = (Inr (), (d1, log @ adds_for IpDnsRecord e (targets e)))"
    using traced_create_targets[OF assms] by blast
  obtain d2 where "handle_creates IpDnsRecord (traced c) es
       (d1, log @ adds_for IpDnsRecord e (targets e))
     = (Inr (), (d2, (log @ adds_for IpDnsRecord e (targets e))
          @ concat (map (\<lambda>e. adds_for IpDnsRecord e (targets e)) es)))"
    using Cons.IH by blast
  then show ?case using s by simp
qed

lemma traced_handle_deletes:
  assumes "responsive c"
  shows "\<exists>d1. handle_deletes (traced c) rm es (d, log)
           = (Inr (), (d1, log @ concat (map (\<lambda>e. deletes_for rm e (targets e)) es)))"
proof (induction es arbitrary: d log)
  case Nil
  show ?case by simp
next
  case (Cons e es)
  obtain d1 where s: "delete_targets (traced c) rm e (targets e) (d, log)
           = (Inr (), (d1, log @ deletes_for rm e (targets e)))"
    using traced_delete_targets[OF assms] by blast
  obtain d2 where "handle_deletes (traced c) rm es (d1, log @ deletes_for rm e (targets e))
     = (Inr (), (d2, (log @ deletes_for rm e (targets e))
          @ concat (map (\<lambda>e. deletes_for rm e (targets e)) es)))"
    using Cons.IH by blast
  then show ?case using s by simp
qed

lemma update_calls_pair:
  "update_calls IpDnsRecord order rm (i, old, new)
   = deletes_for rm new (order i Removed (set (targets old) - set (targets new)))
     @ adds_for IpDnsRecord new (order i Added (set (targets new) - set (targets old)))"
  by (simp add: update_calls_def)

lemma traced_handle_updates:
  assumes "responsive c" "returning IpDnsRecord"
  shows "\<exists>d1. handle_updates IpDnsRecord (traced c) order rm i us (d, log)
           = (Inr (), (d1, log @ concat (map (update_calls IpDnsRecord order rm)
                                          (enumerate i us))))"
proof (induction us arbitrary: d log i)
  case Nil
  show ?case by simp
next
  case (Cons u us)
  obtain old new where u: "u = (old, new)" by (cases u)
  let ?ds = "order i Removed (set (targets old) - set (targets new))"
  let ?as = "order i Added (set (targets new) - set (targets old))"
  obtain d1 where s1: "delete_targets (traced c) rm new ?ds (d, log)
       = (Inr (), (d1, log @ deletes_for rm new ?ds))"
    using traced_delete_targets[OF assms(1)] by blast
  obtain d2 where s2: "create_targets IpDnsRecord (traced c) new ?as
       (d1, log @ deletes_for rm new ?ds)
       = (Inr (), (d2, (log @ deletes_for rm new ?ds) @ adds_for IpDnsRecord new ?as))"
    using traced_create_targets[OF assms] by blast
  obtain d3 where "handle_updates IpDnsRecord (traced c) order rm (Suc i) us
       (d2, (log @ deletes_for rm new ?ds) @ adds_for IpDnsRecord new ?as)
     = (Inr (), (d3, ((log @ deletes_for rm new ?ds) @ adds_for IpDnsRecord new ?as)
          @ concat (map (update_calls IpDnsRecord order rm) (enumerate (Suc i) us))))"
    using Cons.IH by blast
  then show ?case using u s1 s2 by (simp add: Let_def update_calls_pair)
qed

lemma apply_changes_traced:
  assumes "fst (list_ip_dns_records c d) = Inr records"
    and "responsive c" "returning IpDnsRecord"
  shows "\<exists>d1. apply_changes IpDnsRecord (traced c) order chg (d, [])
           = (Inr (), (d1, expected_calls IpDnsRecord order records chg))"
proof -
  obtain d0 where l: "list_ip_dns_records c d = (Inr records, d0)"
    using assms(1) by (cases "list_ip_dns_records c d") simp
  have tl: "list_ip_dns_records (traced c) (d, []) = (Inr records, (d0, [ListCall]))"
    by (simp add: traced_def l)
  let ?rm = "RecordMap records"
  let ?l1 = "[ListCall] @ concat (map (\<lambda>e. adds_for IpDnsRecord e (targets e))
                 (or_empty (create chg)))"
  let ?l2 = "?l1 @ concat (map (\<lambda>e. deletes_for ?rm e (targets e)) (or_empty (delete chg)))"
  let ?us = "zip (or_empty (update_old chg)) (or_empty (update_new chg))"
  let ?l3 = "?l2 @ concat (map (update_calls IpDnsRecord order ?rm) (enumerate 0 ?us))"
  obtain d1 where s1: "handle_creates IpDnsRecord (traced c) (or_empty (create chg))
       (d0, [ListCall]) = (Inr (), (d1, ?l1))"
    using traced_handle_creates[OF assms(2,3)] by blast
  obtain d2 where s2: "handle_deletes (traced c) ?rm (or_empty (delete chg)) (d1, ?l1)
       = (Inr (), (d2, ?l2))"
    using traced_handle_deletes[OF assms(2)] by blast
  obtain d3 where s3: "handle_updates IpDnsRecord (traced c) order ?rm 0 ?us (d2, ?l2)
       = (Inr (), (d3, ?l3))"
    using traced_handle_updates[OF assms(2,3)] by blast
  have "apply_changes IpDnsRecord (traced c) order chg (d, []) = (Inr (), (d3, ?l3))"
    by (simp only: apply_changes_def Let_def tl s1 s2 s3 prod.case sum.case)
  moreover have "?l3 = expected_calls IpDnsRecord order records chg"
    by (simp add: expected_calls_def)
  ultimately show ?thesis by simp
qed



lemma find_absent:
  assumes "\<forall>r\<in>set records. name r = dns_name e \<longrightarrow>
             variant r \<noteq> IpDnsARecord t \<and> variant r \<noteq> IpDnsCnameRecord t \<and> variant r \<noteq> IpDnsTxtRecord t"
  shows "RecordMap_find (RecordMap records) e t = None"
proof -
  have "RecordMap_find (RecordMap records) e t
     = List.find (\<lambda>item. variant item = IpDnsARecord t
                        \<or> variant item = IpDnsCnameRecord t
                        \<or> variant item = IpDnsTxtRecord t)
         (filter (\<lambda>r. name r = dns_name e) records)"
    unfolding RecordMap_find_def RecordMap_def RecordMap_add_lookup find_item_find by simp
  also have "\<dots> = None" using assms by (auto simp: find_None_iff)
  finally show ?thesis .
qed

lemma deletes_for_absent:
  "\<forall>t\<in>set ts. RecordMap_find rm e t = None \<Longrightarrow> deletes_for rm e ts = []"
  by (induction ts) (auto simp: deletes_for_def)

lemma responsive_fixed_client: "outcome \<noteq> Inl Blocked \<Longrightarrow> responsive (fixed_client records outcome)"
  by (simp add: responsive_def fixed_client_def)

lemma returning_spec: "returning IpDnsRecord_spec"
  by (simp add: returning_def IpDnsRecord_spec_def)







text \<open>
  Claim C6. Once the listing has succeeded, and as long as every call to the device
  comes back with a result or an exception, \<open>apply_changes\<close> returns normally whatever
  the adds and deletes answer, and the calls it issues are the calls of the batch, all
  of them: which calls fail plays no part in which calls are made. Deleting an endpoint
  none of whose targets is among the listed records issues no call beyond the listing.
\<close>

theorem apply_changes_best_effort:
  "fst (list_ip_dns_records c d) = Inr records \<and> responsive c \<and> returning IpDnsRecord
   \<longrightarrow>
     fst (apply_changes IpDnsRecord c order chg d) = Inr ()
     \<and> fst (apply_changes IpDnsRecord (traced c) order chg (d, [])) = Inr ()
     \<and> calls (apply_changes IpDnsRecord (traced c) order chg (d, []))
        = [ListCall]
          @ concat (map (\<lambda>e. adds_for IpDnsRecord e (targets e)) (or_empty (create chg)))
          @ concat (map (\<lambda>e. deletes_for (RecordMap records) e (targets e))
                      (or_empty (delete chg)))
          @ concat (map (update_calls IpDnsRecord order (RecordMap records))
                      (enumerate 0 (zip (or_empty (update_old chg))
                                        (or_empty (update_new chg)))))
     \<and> ((\<forall>t\<in>set (targets e). \<forall>r\<in>set records. name r = dns_name e \<longrightarrow>
            variant r \<noteq> IpDnsARecord t \<and> variant r \<noteq> IpDnsCnameRecord t \<and>
            variant r \<noteq> IpDnsTxtRecord t)
        \<longrightarrow> calls (apply_changes IpDnsRecord (traced c) order
                   \<lparr>create = None, update_old = None, update_new = None, delete = Some [e]\<rparr>
                   (d, [])) = [ListCall])"
proof (intro impI)
  assume h: "fst (list_ip_dns_records c d) = Inr records \<and> responsive c \<and>
    returning IpDnsRecord"
  then have l: "fst (list_ip_dns_records c d) = Inr records"
    and rc: "responsive c" and rk: "returning IpDnsRecord" by blast+
  have r1: "fst (apply_changes IpDnsRecord c order chg d) = Inr ()"
    by (rule apply_changes_returns[OF l rc rk])
  have t: "\<exists>d1. apply_changes IpDnsRecord (traced c) order chg' (d, [])
           = (Inr (), (d1, expected_calls IpDnsRecord order records chg'))" for chg'
    by (rule apply_changes_traced[OF l rc rk])
  have r2: "fst (apply_changes IpDnsRecord (traced c) order chg (d, [])) = Inr ()"
    using t[of chg] by auto
  have r3: "calls (apply_changes IpDnsRecord (traced c) order chg (d, []))
        = [ListCall]
          @ concat (map (\<lambda>e. adds_for IpDnsRecord e (targets e)) (or_empty (create chg)))
          @ concat (map (\<lambda>e. deletes_for (RecordMap records) e (targets e))
                      (or_empty (delete chg)))
          @ concat (map (update_calls IpDnsRecord order (RecordMap records))
                      (enumerate 0 (zip (or_empty (update_old chg))
                                        (or_empty (update_new chg)))))"
    using t[of chg] by (auto simp: calls_def expected_calls_def)
  have r4: "calls (apply_changes IpDnsRecord (traced c) order
                   \<lparr>create = None, update_old = None, update_new = None, delete = Some [e]\<rparr>
                   (d, [])) = [ListCall]"
    if a: "\<forall>t\<in>set (targets e). \<forall>r\<in>set records. name r = dns_name e \<longrightarrow>
            variant r \<noteq> IpDnsARecord t \<and> variant r \<noteq> IpDnsCnameRecord t \<and>
            variant r \<noteq> IpDnsTxtRecord t"
  proof -
    have "\<forall>t\<in>set (targets e). RecordMap_find (RecordMap records) e t = None"
      using a find_absent by blast
    then have "deletes_for (RecordMap records) e (targets e) = []"
      by (rule deletes_for_absent)
    then show ?thesis
      using t[of "\<lparr>create = None, update_old = None, update_new = None, delete = Some [e]\<rparr>"]
      by (auto simp: calls_def expected_calls_def or_empty_def)
  qed
  from r1 r2 r3 r4 show "fst (apply_changes IpDnsRecord c order chg d) = Inr ()
     \<and> fst (apply_changes IpDnsRecord (traced c) order chg (d, [])) = Inr ()
     \<and> calls (apply_changes IpDnsRecord (traced c) order chg (d, []))
        = [ListCall]
          @ concat (map (\<lambda>e. adds_for IpDnsRecord e (targets e)) (or_empty (create chg)))
          @ concat (map (\<lambda>e. deletes_for (RecordMap records) e (targets e))
                      (or_empty (delete chg)))
          @ concat (map (update_calls IpDnsRecord order (RecordMap records))
                      (enumerate 0 (zip (or_empty (update_old chg))
                                        (or_empty (update_new chg)))))
     \<and> ((\<forall>t\<in>set (targets e). \<forall>r\<in>set records. name r = dns_name e \<longrightarrow>
            variant r \<noteq> IpDnsARecord t \<and> variant r \<noteq> IpDnsCnameRecord t \<and>
            variant r \<noteq> IpDnsTxtRecord t)
        \<longrightarrow> calls (apply_changes IpDnsRecord (traced c) order
                   \<lparr>create = None, update_old = None, update_new = None, delete = Some [e]\<rparr>
                   (d, [])) = [ListCall])"
    by blast
qed

text \<open>
  A device that lists the records for 10.0.0.5 and 10.0.0.6 and answers every add and
  every delete with a trap. The batch creates a PTR endpoint (no translation, no call)
  and an A endpoint with two targets, deletes a name the device does not list and the
  listed 10.0.0.5, and updates 10.0.0.6 to 10.0.0.7. It returns normally, and after the
  first trapped add all the other calls are still made: the second add, the delete, and
  the delete and the add of the update.
\<close>

theorem apply_changes_best_effort_witness:
  "fst (apply_changes IpDnsRecord_spec
         (traced (fixed_client example_records (Inl (ResponseError [''failure'']))))
         sorted_order example_batch ((), [])) = Inr ()
   \<and> calls (apply_changes IpDnsRecord_spec
         (traced (fixed_client example_records (Inl (ResponseError [''failure'']))))
         sorted_order example_batch ((), []))
      = [ListCall,
         AddCall \<lparr>disabled = False, record_id = None, match_subdomain = False,
             name = ''new.lan'', ttl = ''0w1d0h0m0s'', variant = IpDnsARecord ''10.0.0.1''\<rparr>,
         AddCall \<lparr>disabled = False, record_id = None, match_subdomain = False,
             name = ''new.lan'', ttl = ''0w1d0h0m0s'', variant = IpDnsARecord ''10.0.0.2''\<rparr>,
         DeleteCall \<lparr>disabled = False, record_id = Some ''*1'', match_subdomain = False,
             name = ''svc.lan'', ttl = ''0w1d0h0m0s'', variant = IpDnsARecord ''10.0.0.5''\<rparr>,
         DeleteCall \<lparr>disabled = False, record_id = Some ''*2'', match_subdomain = False,
             name = ''svc.lan'', ttl = ''0w1d0h0m0s'', variant = IpDnsARecord ''10.0.0.6''\<rparr>,
         AddCall \<lparr>disabled = False, record_id = None, match_subdomain = False,
             name = ''svc.lan'', ttl = ''0w1d0h0m0s'', variant = IpDnsARecord ''10.0.0.7''\<rparr>]"
proof -
  let ?c = "fixed_client example_records (Inl (ResponseError [''failure'']))"
  have h1: "fst (list_ip_dns_records ?c ()) = Inr example_records"
    by (simp add: fixed_client_def)
  have h2: "responsive ?c" by (simp add: responsive_fixed_client)
  have h3: "returning IpDnsRecord_spec" by (rule returning_spec)
  have e: "[ListCall]
          @ concat (map (\<lambda>e. adds_for IpDnsRecord_spec e (targets e))
                      (or_empty (create example_batch)))
          @ concat (map (\<lambda>e. deletes_for (RecordMap example_records) e (targets e))
                      (or_empty (delete example_batch)))
          @ concat (map (update_calls IpDnsRecord_spec sorted_order (RecordMap example_records))
                      (enumerate 0 (zip (or_empty (update_old example_batch))
                                        (or_empty (update_new example_batch)))))
      = [ListCall,
         AddCall \<lparr>disabled = False, record_id = None, match_subdomain = False,
             name = ''new.lan'', ttl = ''0w1d0h0m0s'', variant = IpDnsARecord ''10.0.0.1''\<rparr>,
         AddCall \<lparr>disabled = False, record_id = None, match_subdomain = False,
             name = ''new.lan'', ttl = ''0w1d0h0m0s'', variant = IpDnsARecord ''10.0.0.2''\<rparr>,
         DeleteCall \<lparr>disabled = False, record_id = Some ''*1'', match_subdomain = False,
             name = ''svc.lan'', ttl = ''0w1d0h0m0s'', variant = IpDnsARecord ''10.0.0.5''\<rparr>,
         DeleteCall \<lparr>disabled = False, record_id = Some ''*2'', match_subdomain = False,
             name = ''svc.lan'', ttl = ''0w1d0h0m0s'', variant = IpDnsARecord ''10.0.0.6''\<rparr>,
         AddCall \<lparr>disabled = False, record_id = None, match_subdomain = False,
             name = ''svc.lan'', ttl = ''0w1d0h0m0s'', variant = IpDnsARecord ''10.0.0.7''\<rparr>]"
    by (simp add: example_batch_def or_empty_def update_calls_def insert_Diff_if
        deletes_for_def adds_for_def RecordMap_find_def RecordMap_def example_records_def
        example_endpoint_def sorted_order_def to_routeros_record_def to_routeros_ttl_day
        IpDnsRecord_spec_def Let_def startswith_def enumerate_eq_zip)
  have "fst (apply_changes IpDnsRecord_spec (traced ?c) sorted_order example_batch ((), []))
          = Inr ()
      \<and> calls (apply_changes IpDnsRecord_spec (traced ?c) sorted_order example_batch ((), []))
        = [ListCall]
          @ concat (map (\<lambda>e. adds_for IpDnsRecord_spec e (targets e))
                      (or_empty (create example_batch)))
          @ concat (map (\<lambda>e. deletes_for (RecordMap example_records) e (targets e))
                      (or_empty (delete example_batch)))
          @ concat (map (update_calls IpDnsRecord_spec sorted_order (RecordMap example_records))
                      (enumerate 0 (zip (or_empty (update_old example_batch))
                                        (or_empty (update_new example_batch)))))"
    using apply_changes_best_effort
      [where c = ?c and d = "()" and records = example_records
         and IpDnsRecord = IpDnsRecord_spec and order = sorted_order and chg = example_batch
         and e = "example_endpoint [''10.0.0.8'']"]
      h1 h2 h3
    by blast
  then show ?thesis by (simp only: e simp_thms)
qed

text \<open>
  A call that never returns is not swallowed: with a device whose adds do not come back,
  the run stops at the first add and \<open>apply_changes\<close> does not return.
\<close>

lemma apply_changes_blocked:
  "apply_changes IpDnsRecord_spec (traced (fixed_client [] (Inl Blocked))) sorted_order
     \<lparr>create = Some [example_endpoint [''10.0.0.1'', ''10.0.0.2'']],
      update_old = None, update_new = None, delete = None\<rparr> ((), [])
   = (Inl Blocked,
      ((), [ListCall,
            AddCall \<lparr>disabled = False, record_id = None, match_subdomain = False,
              name = ''svc.lan'', ttl = ''0w1d0h0m0s'',
              variant = IpDnsARecord ''10.0.0.1''\<rparr>]))"
  by (simp add: apply_changes_def Let_def or_empty_def traced_def fixed_client_def
      create_body_def log_action_def to_routeros_record_def to_routeros_ttl_day
      RecordMap_def example_endpoint_def IpDnsRecord_spec_def startswith_def)

section \<open>Word round trip\<close>

lemma and_le_nat: "(n::nat) AND m \<le> n"
  by (simp add: and_nat_def nat_le_iff)

lemma header_small:
  assumes "(n::nat) < 128"
  shows "n AND 0xF0 \<noteq> 0xF0" "n AND 0xE0 \<noteq> 0xE0" "n AND 0xC0 \<noteq> 0xC0" "n AND 0x80 \<noteq> 0x80"
proof -
  have a: "n AND 0xF0 \<le> n" "n AND 0xE0 \<le> n" "n AND 0xC0 \<le> n" "n AND 0x80 \<le> n"
    by (rule and_le_nat)+
  show "n AND 0xF0 \<noteq> 0xF0" using a(1) assms by linarith
  show "n AND 0xE0 \<noteq> 0xE0" using a(2) assms by linarith
  show "n AND 0xC0 \<noteq> 0xC0" using a(3) assms by linarith
  show "n AND 0x80 \<noteq> 0x80" using a(4) assms by linarith
qed

lemma encode_ascii: "\<forall>cp\<in>set word. cp < 0x80 \<Longrightarrow> encode word = Inr word"
  by (induction word) (simp_all add: encode_code_point_def)

lemma decode_ascii: "\<forall>b\<in>set data. b < 0x80 \<Longrightarrow> decode data = Inr data"
  by (induction data) simp_all

lemma write_word_short_ascii:
  assumes "length word \<le> 0x7F" "\<forall>cp\<in>set word. cp < 0x80"
  shows "write_word word = Inr (length word # word)"
  using assms by (simp add: write_word_def to_bytes_def encode_ascii)

lemma read_word_short_ascii:
  assumes "length word \<le> 0x7F" "\<forall>cp\<in>set word. cp < 0x80"
  shows "read_word \<lparr>buffer = (length word # word) @ rest, at_eof = eof\<rparr>
         = (Inr word, \<lparr>buffer = rest, at_eof = eof\<rparr>)"
proof -
  have n: "length word < 128" using assms(1) by simp
  show ?thesis
    using assms(2)
    by (simp add: read_word_def readexactly_def ord_def header_small[OF n] decode_ascii)
qed

text \<open>
  Words of at most 127 code points, all of them ASCII, do come back: the length byte is
  the whole prefix and the payload has as many bytes as the word has code points.
\<close>

lemma short_ascii_roundtrip:
  assumes "length word \<le> 0x7F" "\<forall>cp\<in>set word. cp < 0x80"
  shows "\<exists>data. write_word word = Inr data \<and>
           read_word \<lparr>buffer = data @ rest, at_eof = eof\<rparr>
             = (Inr word, \<lparr>buffer = rest, at_eof = eof\<rparr>)"
  using write_word_short_ascii[OF assms] read_word_short_ascii[OF assms] by simp

text \<open>
  A word of one non-ASCII code point: the prefix counts one code point, the payload has
  two bytes, and the reader decodes the first of them alone.
\<close>

lemma non_ascii_word:
  "write_word [233] = Inr [1, 195, 169]"
  "read_word \<lparr>buffer = [1, 195, 169], at_eof = True\<rparr>
     = (Inl UnicodeDecodeError, \<lparr>buffer = [169], at_eof = True\<rparr>)"
  by (simp_all add: write_word_def to_bytes_def encode_code_point_def read_word_def
      readexactly_def ord_def)

lemma to_bytes_two: "to_bytes 32896 2 = Inr [128, 128]"
  by (simp add: to_bytes_def numeral_2_eq_2)

text \<open>
  Claim C1. The word of 128 letters \<open>a\<close> (length 0x80, the first length of the
  two-byte class) is written as the prefix \<open>0x80 0x80\<close> and 128 payload bytes.
  \<open>read_word\<close> reads the header, finds one more length byte to read, and calls
  \<open>ord\<close> on the two bytes together, which raises TypeError: the word is not decoded.
\<close>

theorem read_word_two_byte_length:
  "write_word (replicate 128 97) = Inr ([128, 128] @ replicate 128 97)
   \<and> fst (read_word \<lparr>buffer = [128, 128] @ replicate 128 97, at_eof = True\<rparr>)
       = Inl TypeError"
proof
  have enc: "encode (replicate 128 97) = Inr (replicate 128 97)"
    by (rule encode_ascii) simp
  show "write_word (replicate 128 97) = Inr ([128, 128] @ replicate 128 97)"
    by (simp add: write_word_def enc to_bytes_two)
next
  show "fst (read_word \<lparr>buffer = [128, 128] @ replicate 128 97, at_eof = True\<rparr>)
       = Inl TypeError"
    by (simp add: read_word_def readexactly_def ord_def)
qed

section \<open>The reader and a sentence without a tag\<close>

lemma read_without_tag:
  assumes "stream c \<noteq> None"
    and "api_attributes sentence ''.tag'' = None"
  shows "read now (Inr (Some sentence)) c
         = (Inl (RuntimeError ''tag not found''), c\<lparr>idle_since := now\<rparr>)"
  using assms by (auto simp: read_def Let_def split: option.splits)

lemma read_unknown_tag:
  assumes "stream c \<noteq> None"
    and "api_attributes sentence ''.tag'' = Some tg" and "responses c tg = None"
  shows "read now (Inr (Some sentence)) c = (Inl (KeyError tg), c\<lparr>idle_since := now\<rparr>)"
  using assms by (auto simp: read_def Let_def split: option.splits)

text \<open>
  Claim C3 (amended). When the reader of an open connection receives a sentence without
  a \<open>.tag\<close> api-attribute, or with a tag no pending response has, \<open>read\<close> raises
  (RuntimeError \<open>tag not found\<close>, or KeyError for the unknown tag) and the reader task
  ends with that exception. The last-activity time is refreshed and nothing else
  changes: the closed event stays unset, the stream stays in place, and the pending
  responses are what they were, none of them cancelled.
\<close>

theorem reader_fails_on_missing_tag:
  "stream c \<noteq> None \<and> \<not> closed_event c \<and>
   (api_attributes sentence ''.tag'' = None \<or>
    (\<exists>tg. api_attributes sentence ''.tag'' = Some tg \<and> responses c tg = None))
   \<longrightarrow>
     (\<exists>e. run_background_read ((now, Inr (Some sentence)) # rest) c
            = (Failed e, c\<lparr>idle_since := now\<rparr>)
          \<and> (e = RuntimeError ''tag not found'' \<or> (\<exists>tg. e = KeyError tg)))
     \<and> \<not> closed_event (snd (run_background_read ((now, Inr (Some sentence)) # rest) c))
     \<and> stream (snd (run_background_read ((now, Inr (Some sentence)) # rest) c)) = stream c
     \<and> responses (snd (run_background_read ((now, Inr (Some sentence)) # rest) c))
         = responses c"
proof (intro impI)
  assume h: "stream c \<noteq> None \<and> \<not> closed_event c \<and>
   (api_attributes sentence ''.tag'' = None \<or>
    (\<exists>tg. api_attributes sentence ''.tag'' = Some tg \<and> responses c tg = None))"
  then have s: "stream c \<noteq> None" and o: "\<not> closed_event c" by blast+
  from h have "\<exists>e. read now (Inr (Some sentence)) c = (Inl e, c\<lparr>idle_since := now\<rparr>)
        \<and> (e = RuntimeError ''tag not found'' \<or> (\<exists>tg. e = KeyError tg))"
    using read_without_tag[OF s] read_unknown_tag[OF s] by blast
  then obtain e where r: "read now (Inr (Some sentence)) c = (Inl e, c\<lparr>idle_since := now\<rparr>)"
    and e: "e = RuntimeError ''tag not found'' \<or> (\<exists>tg. e = KeyError tg)"
    by blast
  have run: "run_background_read ((now, Inr (Some sentence)) # rest) c
        = (Failed e, c\<lparr>idle_since := now\<rparr>)"
    using o r by simp
  show "(\<exists>e. run_background_read ((now, Inr (Some sentence)) # rest) c
            = (Failed e, c\<lparr>idle_since := now\<rparr>)
          \<and> (e = RuntimeError ''tag not found'' \<or> (\<exists>tg. e = KeyError tg)))
     \<and> \<not> closed_event (snd (run_background_read ((now, Inr (Some sentence)) # rest) c))
     \<and> stream (snd (run_background_read ((now, Inr (Some sentence)) # rest) c)) = stream c
     \<and> responses (snd (run_background_read ((now, Inr (Some sentence)) # rest) c))
         = responses c"
    using run e o by auto
qed

text \<open>
  An open connection with one pending response, tag \<open>t1\<close>; the device sends a \<open>!done\<close>
  sentence that carries no tag.
\<close>

theorem reader_fails_on_missing_tag_witness:
  "run_background_read [(5, Inr (Some (ResponseSentence ''!done'')))]
     \<lparr>closed_event = False, idle_since = 0,
      responses = [''t1'' \<mapsto> Response \<lparr>tag = ''t1'', words = [''/ip/dns/static/print'']\<rparr>],
      stream = Some ()\<rparr>
   = (Failed (RuntimeError ''tag not found''),
      \<lparr>closed_event = False, idle_since = 5,
       responses = [''t1'' \<mapsto> Response \<lparr>tag = ''t1'', words = [''/ip/dns/static/print'']\<rparr>],
       stream = Some ()\<rparr>)"
proof -
  let ?c = "\<lparr>closed_event = False, idle_since = 0,
      responses = [''t1'' \<mapsto> Response \<lparr>tag = ''t1'', words = [''/ip/dns/static/print'']\<rparr>],
      stream = Some ()\<rparr>"
  have h: "stream ?c \<noteq> None \<and> \<not> closed_event ?c \<and>
     (api_attributes (ResponseSentence ''!done'') ''.tag'' = None \<or>
      (\<exists>tg. api_attributes (ResponseSentence ''!done'') ''.tag'' = Some tg
            \<and> responses ?c tg = None))"
    by (simp add: ResponseSentence_def)
  have "\<exists>e. run_background_read [(5, Inr (Some (ResponseSentence ''!done'')))] ?c
            = (Failed e, ?c\<lparr>idle_since := 5\<rparr>)
          \<and> (e = RuntimeError ''tag not found'' \<or> (\<exists>tg. e = KeyError tg))"
    using reader_fails_on_missing_tag
      [where c = ?c and sentence = "ResponseSentence ''!done''" and now = 5 and rest = "[]"] h
    by blast
  moreover have "fst (run_background_read [(5, Inr (Some (ResponseSentence ''!done'')))] ?c)
      = Failed (RuntimeError ''tag not found'')"
    by (simp add: read_def ResponseSentence_def Let_def)
  ultimately show ?thesis by auto
qed

text \<open>
  Claim C3 as stated: after the sentence without a tag the connection is closed and the
  pending responses are cancelled. Here the closed event is unset afterwards, the stream
  is still there, and the pending response has received no sentence and is in progress.
\<close>

theorem reader_fails_on_missing_tag_counterexample:
  "fst (run_background_read [(5, Inr (Some (ResponseSentence ''!done'')))]
     \<lparr>closed_event = False, idle_since = 0,
      responses = [''t1'' \<mapsto> Response \<lparr>tag = ''t1'', words = [''/ip/dns/static/print'']\<rparr>],
      stream = Some ()\<rparr>) = Failed (RuntimeError ''tag not found'')
   \<and> closed_event (snd (run_background_read [(5, Inr (Some (ResponseSentence ''!done'')))]
     \<lparr>closed_event = False, idle_since = 0,
      responses = [''t1'' \<mapsto> Response \<lparr>tag = ''t1'', words = [''/ip/dns/static/print'']\<rparr>],
      stream = Some ()\<rparr>)) = False
   \<and> stream (snd (run_background_read [(5, Inr (Some (ResponseSentence ''!done'')))]
     \<lparr>closed_event = False, idle_since = 0,
      responses = [''t1'' \<mapsto> Response \<lparr>tag = ''t1'', words = [''/ip/dns/static/print'']\<rparr>],
      stream = Some ()\<rparr>)) = Some ()
   \<and> responses (snd (run_background_read [(5, Inr (Some (ResponseSentence ''!done'')))]
     \<lparr>closed_event = False, idle_since = 0,
      responses = [''t1'' \<mapsto> Response \<lparr>tag = ''t1'', words = [''/ip/dns/static/print'']\<rparr>],
      stream = Some ()\<rparr>)) ''t1''
     = Some \<lparr>completion_event = False,
             request = \<lparr>tag = ''t1'', words = [''/ip/dns/static/print'']\<rparr>,
             sentences = [], status = InProgress\<rparr>"
  by (simp add: read_def ResponseSentence_def Response_def Let_def)

end
